theory Spec2Isabelle
  imports Complex_Main "HOL-Library.Sublist"
begin

section \<open>Thrown values\<close>

text \<open>
  Everything the service throws or rejects with is a JavaScript \<^verbatim>\<open>Error\<close> object. The
  code reads three properties of it: \<^verbatim>\<open>message\<close>, \<^verbatim>\<open>code\<close> (set by the HTTP client on
  transport failures) and \<^verbatim>\<open>response\<close> (set by the HTTP client when the server answered
  with a failure status). Of \<^verbatim>\<open>error.response\<close> the code reads \<^verbatim>\<open>status\<close> and passes
  \<^verbatim>\<open>data\<close> to \<^verbatim>\<open>JSON.stringify\<close> only, so the body is kept as that rendering.
\<close>

record err_response =
  err_status :: int
  err_data_json :: string

record js_error =
  message :: string
  code :: "string option"
  response :: "err_response option"

text \<open>\<^verbatim>\<open>new Error(msg)\<close>: no \<^verbatim>\<open>code\<close>, no \<^verbatim>\<open>response\<close>.\<close>

definition Error :: "string \<Rightarrow> js_error" where
  "Error msg = \<lparr>message = msg, code = None, response = None\<rparr>"

section \<open>The service object and its request queue\<close>

text \<open>
  A queue item is \<^verbatim>\<open>{execute, resolve, reject, timestamp}\<close>. The three closures belong to
  one submission; the model names the submission by a number and keeps the timestamp.
\<close>

record queue_item =
  item_id :: nat
  timestamp :: int

text \<open>
  The fields of \<^verbatim>\<open>OllamaService\<close> set by the constructor, followed by bookkeeping that
  the source does not store but that its closures and pending \<^verbatim>\<open>await\<close>s amount to:
  \<^item> \<open>nextItem\<close>: the number of the next queue item to be created;
  \<^item> \<open>executing\<close>: the items whose \<^verbatim>\<open>execute()\<close> has been called by \<^verbatim>\<open>executeRequest\<close>
    and whose \<^verbatim>\<open>await\<close> has not resumed yet;
  \<^item> \<open>invoked\<close>: every item whose \<^verbatim>\<open>execute()\<close> was ever called;
  \<^item> \<open>settled\<close>: every call of an item's \<^verbatim>\<open>resolve\<close> (\<open>Inr\<close>) or \<^verbatim>\<open>reject\<close> (\<open>Inl\<close>), in order;
  \<^item> \<open>timedOut\<close>: the items rejected by \<^verbatim>\<open>processQueue\<close>.
\<close>

record 'r OllamaService =
  baseURL :: string
  model :: string
  timeout :: int
  maxConcurrentRequests :: int
  maxQueueSize :: int
  currentRequests :: int
  requestQueue :: "queue_item list"
  nextItem :: nat
  executing :: "nat list"
  invoked :: "nat list"
  settled :: "(nat \<times> (js_error + 'r)) list"
  timedOut :: "nat list"

text \<open>
  The environment read by the constructor. \<^verbatim>\<open>parseInt\<close> yields \<^verbatim>\<open>NaN\<close> (\<open>None\<close>) or an
  integer; \<^verbatim>\<open>x || d\<close> takes \<open>d\<close> when \<open>x\<close> is \<^verbatim>\<open>undefined\<close>, \<^verbatim>\<open>NaN\<close>, \<open>0\<close> or the
  empty string.
\<close>

record environment =
  OLLAMA_API_URL :: "string option"
  OLLAMA_MODEL :: "string option"
  OLLAMA_MAX_CONCURRENT :: "int option"
  OLLAMA_MAX_QUEUE_SIZE :: "int option"

definition string_or :: "string option \<Rightarrow> string \<Rightarrow> string" where
  "string_or v d = (case v of None \<Rightarrow> d | Some s \<Rightarrow> if s = [] then d else s)"

definition parseInt_or :: "int option \<Rightarrow> int \<Rightarrow> int" where
  "parseInt_or v d = (case v of None \<Rightarrow> d | Some n \<Rightarrow> if n = 0 then d else n)"

definition constructor :: "environment \<Rightarrow> 'r OllamaService" where
  "constructor env =
     \<lparr>baseURL = string_or (OLLAMA_API_URL env) ''http://localhost:11434'',
      model = string_or (OLLAMA_MODEL env) ''moondream'',
      timeout = 60000,
      maxConcurrentRequests = parseInt_or (OLLAMA_MAX_CONCURRENT env) 3,
      maxQueueSize = parseInt_or (OLLAMA_MAX_QUEUE_SIZE env) 10,
      currentRequests = 0,
      requestQueue = [],
      nextItem = 0,
      executing = [],
      invoked = [],
      settled = [],
      timedOut = []\<rparr>"

text \<open>
  \<^verbatim>\<open>executeRequest\<close> up to its \<^verbatim>\<open>await\<close>: the counter goes up and the work function is
  called.
\<close>

definition executeRequest_begin :: "queue_item \<Rightarrow> 'r OllamaService \<Rightarrow> 'r OllamaService" where
  "executeRequest_begin queueItem s =
     s\<lparr>currentRequests := currentRequests s + 1,
       executing := executing s @ [item_id queueItem],
       invoked := invoked s @ [item_id queueItem]\<rparr>"

text \<open>
  \<^verbatim>\<open>executeRequest\<close> from the moment its \<^verbatim>\<open>await\<close> resumes with the work's outcome
  (\<open>Inr\<close> a result, \<open>Inl\<close> a thrown error) to the decrement in \<^verbatim>\<open>finally\<close>.
\<close>

definition executeRequest_settle ::
  "nat \<Rightarrow> js_error + 'r \<Rightarrow> 'r OllamaService \<Rightarrow> 'r OllamaService" where
  "executeRequest_settle i outcome s =
     s\<lparr>settled := settled s @ [(i, outcome)],
       executing := remove1 i (executing s),
       currentRequests := currentRequests s - 1\<rparr>"

text \<open>
  \<^verbatim>\<open>processQueue\<close>. Each activation reads \<^verbatim>\<open>Date.now()\<close> once; \<open>clock k\<close> is the reading
  of the \<open>k\<close>-th activation of one synchronous drain.
\<close>

definition queue_timeout_error :: js_error where
  "queue_timeout_error = Error ''Request timed out in queue''"

function processQueue :: "(nat \<Rightarrow> int) \<Rightarrow> 'r OllamaService \<Rightarrow> 'r OllamaService" where
  "processQueue clock s =
     (if length (requestQueue s) > 0 \<and> currentRequests s < maxConcurrentRequests s then
        let nextRequest = hd (requestQueue s);
            s1 = s\<lparr>requestQueue := tl (requestQueue s)\<rparr>;
            waitTime = clock 0 - timestamp nextRequest
        in if waitTime > 30000 then
             processQueue (\<lambda>k. clock (Suc k))
               (s1\<lparr>settled := settled s1 @ [(item_id nextRequest, Inl queue_timeout_error)],
                   timedOut := timedOut s1 @ [item_id nextRequest]\<rparr>)
           else executeRequest_begin nextRequest s1
      else s)"
  by pat_completeness auto
termination
  by (relation "measure (\<lambda>(clock, s). length (requestQueue s))") auto

text \<open>The continuation of \<^verbatim>\<open>executeRequest\<close> as a whole: settle, decrement, drain.\<close>

definition executeRequest_end ::
  "nat \<Rightarrow> js_error + 'r \<Rightarrow> (nat \<Rightarrow> int) \<Rightarrow> 'r OllamaService \<Rightarrow> 'r OllamaService" where
  "executeRequest_end i outcome clock s = processQueue clock (executeRequest_settle i outcome s)"

text \<open>
  \<^verbatim>\<open>queueRequest\<close>. The promise it returns is pending for an item that was started or
  queued, and already rejected when the queue is full.
\<close>

datatype submission = Started nat | Queued nat | RejectedNow js_error

definition queue_full_error :: js_error where
  "queue_full_error = Error ''Request queue is full. Please try again later.''"

definition queueRequest :: "int \<Rightarrow> 'r OllamaService \<Rightarrow> submission \<times> 'r OllamaService" where
  "queueRequest now s =
     (let queueItem = \<lparr>item_id = nextItem s, timestamp = now\<rparr> in
      if currentRequests s < maxConcurrentRequests s then
        (Started (nextItem s), executeRequest_begin queueItem (s\<lparr>nextItem := Suc (nextItem s)\<rparr>))
      else if int (length (requestQueue s)) \<ge> maxQueueSize s then
        (RejectedNow queue_full_error, s)
      else
        (Queued (nextItem s),
         s\<lparr>requestQueue := requestQueue s @ [queueItem], nextItem := Suc (nextItem s)\<rparr>))"

section \<open>Numbers and strings of the language\<close>

text \<open>
  A JavaScript number is an IEEE 754 binary64 value. The service divides and multiplies
  integers that are far inside the range of normal doubles, so the model rounds an exact
  rational result to 53 significant bits, ties to even, and leaves the exponent
  unbounded: \<open>binary64 x\<close> is the double nearest to \<open>x\<close>. \<open>bitlen n\<close> is the number
  of binary digits of \<open>n\<close>, \<open>ilog2 x\<close> the exponent \<open>e\<close> with \<open>2\<^sup>e \<le> x < 2\<^sup>e\<^sup>+\<^sup>1\<close>
  for positive \<open>x\<close>.
\<close>

definition pow2 :: "int \<Rightarrow> rat" where
  "pow2 e = (if 0 \<le> e then 2 ^ nat e else 1 / 2 ^ nat (- e))"

function bitlen :: "int \<Rightarrow> int" where
  "bitlen n = (if n \<le> 0 then 0 else 1 + bitlen (n div 2))"
  by pat_completeness auto
termination
  by (relation "measure nat") auto

definition ilog2 :: "rat \<Rightarrow> int" where
  "ilog2 x =
     (let (p, q) = quotient_of x;
          e = bitlen p - bitlen q
      in if pow2 e \<le> x then e else e - 1)"

definition round_half_even :: "rat \<Rightarrow> int" where
  "round_half_even y =
     (let f = \<lfloor>y\<rfloor>; r = y - of_int f
      in if r < 1 / 2 then f else if 1 / 2 < r then f + 1 else if even f then f else f + 1)"

definition binary64 :: "rat \<Rightarrow> rat" where
  "binary64 x =
     (if x = 0 then 0
      else let u = pow2 (ilog2 \<bar>x\<bar> - 52) in of_int (round_half_even (x / u)) * u)"

text \<open>\<^verbatim>\<open>Math.round\<close>: the nearest integer, a tie going up.\<close>

definition Math_round :: "rat \<Rightarrow> int" where
  "Math_round x = \<lfloor>x + 1 / 2\<rfloor>"

text \<open>
  The decimal text of an integer, as a template literal renders a number of moderate
  size (below \<open>10\<^sup>2\<^sup>1\<close> in magnitude).
\<close>

definition digit_char :: "int \<Rightarrow> char" where
  "digit_char d = ''0123456789'' ! nat d"

function decimal :: "int \<Rightarrow> string" where
  "decimal n = (if n < 10 then [digit_char n] else decimal (n div 10) @ [digit_char (n mod 10)])"
  by pat_completeness auto
termination
  by (relation "measure nat") auto

definition Number_toString :: "int \<Rightarrow> string" where
  "Number_toString n = (if n < 0 then ''-'' @ decimal (- n) else decimal n)"

text \<open>\<^verbatim>\<open>haystack.includes(needle)\<close>: \<open>needle\<close> occurs in \<open>haystack\<close> as a substring.\<close>

fun String_includes :: "string \<Rightarrow> string \<Rightarrow> bool" where
  "String_includes [] needle = (needle = [])"
| "String_includes (c # cs) needle = (prefix needle (c # cs) \<or> String_includes cs needle)"

text \<open>
  \<^verbatim>\<open>text.trim()\<close> removes every leading and every trailing white space character and
  line terminator: tab, line feed, vertical tab, form feed, carriage return, space,
  U+00A0, U+1680, U+2000 to U+200A, U+2028, U+2029, U+202F, U+205F, U+3000 and U+FEFF.
  A \<open>string\<close> holds the UTF-8 bytes of the text, so each of them is a sequence of one
  to three bytes.
\<close>

definition white_space :: "string list" where
  "white_space =
     [[CHR 0x09], [CHR 0x0A], [CHR 0x0B], [CHR 0x0C], [CHR 0x0D], [CHR 0x20],
      [CHR 0xC2, CHR 0xA0], [CHR 0xE1, CHR 0x9A, CHR 0x80],
      [CHR 0xE2, CHR 0x80, CHR 0x80], [CHR 0xE2, CHR 0x80, CHR 0x81],
      [CHR 0xE2, CHR 0x80, CHR 0x82], [CHR 0xE2, CHR 0x80, CHR 0x83],
      [CHR 0xE2, CHR 0x80, CHR 0x84], [CHR 0xE2, CHR 0x80, CHR 0x85],
      [CHR 0xE2, CHR 0x80, CHR 0x86], [CHR 0xE2, CHR 0x80, CHR 0x87],
      [CHR 0xE2, CHR 0x80, CHR 0x88], [CHR 0xE2, CHR 0x80, CHR 0x89],
      [CHR 0xE2, CHR 0x80, CHR 0x8A], [CHR 0xE2, CHR 0x80, CHR 0xA8],
      [CHR 0xE2, CHR 0x80, CHR 0xA9], [CHR 0xE2, CHR 0x80, CHR 0xAF],
      [CHR 0xE2, CHR 0x81, CHR 0x9F], [CHR 0xE3, CHR 0x80, CHR 0x80],
      [CHR 0xEF, CHR 0xBB, CHR 0xBF]]"

function strip_leading :: "string list \<Rightarrow> string \<Rightarrow> string" where
  "strip_leading spaces text =
     (case find (\<lambda>w. w \<noteq> [] \<and> prefix w text) spaces of
        None \<Rightarrow> text
      | Some w \<Rightarrow> strip_leading spaces (drop (length w) text))"
  by pat_completeness auto
termination
  by (relation "measure (\<lambda>(spaces, text). length text)")
     (auto simp: find_Some_iff prefix_def)

definition String_trim :: "string \<Rightarrow> string" where
  "String_trim text =
     rev (strip_leading (map rev white_space) (rev (strip_leading white_space text)))"

section \<open>What the HTTP client returns\<close>

text \<open>
  An HTTP call either rejects with an error (\<open>Inl\<close>) or resolves with a response
  (\<open>Inr\<close>). Of a response the service reads \<^verbatim>\<open>status\<close> and \<^verbatim>\<open>data\<close>. The body
  \<^verbatim>\<open>data\<close> is \<^verbatim>\<open>undefined\<close> or \<^verbatim>\<open>null\<close> (\<open>Nullish\<close>), a string, number or boolean
  (\<open>Primitive\<close>, with its truthiness and its \<^verbatim>\<open>JSON.stringify\<close> text), or an object,
  whose fields are those the endpoint documents.
\<close>

datatype 'd body = Nullish | Primitive bool string | Object 'd

record 'd http_response =
  status :: int
  data :: "'d body"

text \<open>
  \<^verbatim>\<open>GET /api/tags\<close> answers \<^verbatim>\<open>{models: [{name}, ...]}\<close>; \<open>models = None\<close> is a body
  without a (truthy) \<^verbatim>\<open>models\<close> property.
\<close>

record tag_model =
  name :: string

record tags_data =
  models :: "tag_model list option"

text \<open>
  \<^verbatim>\<open>POST /api/generate\<close> answers \<^verbatim>\<open>{response, total_duration, ...}\<close>. The property
  \<^verbatim>\<open>response\<close> is absent, \<^verbatim>\<open>null\<close>/\<^verbatim>\<open>undefined\<close>, or a text; \<^verbatim>\<open>total_duration\<close> is
  absent (\<open>None\<close>) or an integer of nanoseconds; \<open>hasOwnProperty_key\<close> tells whether
  the body has a key of its own named \<^verbatim>\<open>hasOwnProperty\<close>, whose value (in a body parsed
  from JSON never a function) then hides the method every object inherits;
  \<open>json_text\<close> is what \<^verbatim>\<open>JSON.stringify\<close> makes of the body.
\<close>

datatype field = Missing | NullOrUndefined | Present string

record generate_data =
  response_field :: field
  total_duration :: "int option"
  hasOwnProperty_key :: bool
  json_text :: string

section \<open>Availability probes\<close>

text \<open>
  \<^verbatim>\<open>isAvailable\<close>: the \<^verbatim>\<open>try\<close> block, then the method with its \<^verbatim>\<open>catch\<close>. The argument
  is the outcome of \<^verbatim>\<open>GET /api/tags\<close> with the 5 s timeout.
\<close>

definition isAvailable_try :: "js_error + 'd http_response \<Rightarrow> js_error + bool" where
  "isAvailable_try get =
     (case get of Inl error \<Rightarrow> Inl error | Inr resp \<Rightarrow> Inr (status resp = 200))"

definition isAvailable :: "js_error + 'd http_response \<Rightarrow> js_error + bool" where
  "isAvailable get =
     (case isAvailable_try get of Inl error \<Rightarrow> Inr False | Inr available \<Rightarrow> Inr available)"

text \<open>
  \<^verbatim>\<open>isModelAvailable\<close>. Reading \<^verbatim>\<open>.models\<close> of an \<^verbatim>\<open>undefined\<close> or \<^verbatim>\<open>null\<close> body throws a
  \<^verbatim>\<open>TypeError\<close> (whose text the method only logs); of a string, number or boolean it
  yields \<^verbatim>\<open>undefined\<close>.
\<close>

definition property_of_nullish :: js_error where
  "property_of_nullish = Error ''Cannot read properties of undefined''"

definition isModelAvailable_try ::
  "string \<Rightarrow> js_error + tags_data http_response \<Rightarrow> js_error + bool" where
  "isModelAvailable_try this_model get =
     (case get of
        Inl error \<Rightarrow> Inl error
      | Inr resp \<Rightarrow>
          if status resp = 200 then
            (case data resp of
               Nullish \<Rightarrow> Inl property_of_nullish
             | Primitive _ _ \<Rightarrow> Inr False
             | Object d \<Rightarrow>
                 (case models d of
                    None \<Rightarrow> Inr False
                  | Some ms \<Rightarrow> Inr (list_ex (\<lambda>m. String_includes (name m) this_model) ms)))
          else Inr False)"

definition isModelAvailable ::
  "string \<Rightarrow> js_error + tags_data http_response \<Rightarrow> js_error + bool" where
  "isModelAvailable this_model get =
     (case isModelAvailable_try this_model get of
        Inl error \<Rightarrow> Inr False
      | Inr modelExists \<Rightarrow> Inr modelExists)"

section \<open>Classifying an image\<close>

text \<open>
  \<^verbatim>\<open>handleNetworkError\<close> always throws; the model returns the error it throws.
\<close>

definition has_status :: "js_error \<Rightarrow> (int \<Rightarrow> bool) \<Rightarrow> bool" where
  "has_status error p = (case response error of None \<Rightarrow> False | Some r \<Rightarrow> p (err_status r))"

definition handleNetworkError :: "js_error \<Rightarrow> js_error" where
  "handleNetworkError error =
     (if code error = Some ''ETIMEDOUT'' \<or> code error = Some ''TIMEOUT'' then
        Error ''Request to Ollama service timed out. The image might be too large or complex, or the service may be overloaded.''
      else if code error = Some ''ECONNREFUSED'' then
        Error ''Cannot connect to Ollama service. Please ensure Ollama is running and accessible at the configured URL.''
      else if code error = Some ''ENOTFOUND'' then
        Error ''Ollama service URL not found. Please check your OLLAMA_API_URL configuration.''
      else if code error = Some ''ENETUNREACH'' then
        Error ''Network unreachable. Please check your network connection and Ollama service configuration.''
      else if has_status error (\<lambda>st. st = 404) then
        Error ''Ollama API endpoint not found. Please check your Ollama installation and version.''
      else if has_status error (\<lambda>st. st = 400) then
        Error (''Ollama API error: '' @ err_data_json (the (response error)))
      else if has_status error (\<lambda>st. st \<ge> 500) then
        Error ''Ollama service is experiencing internal issues. Please try again later.''
      else
        Error (''Ollama service error: '' @ message error))"

text \<open>
  \<^verbatim>\<open>logResponseDebug\<close> does nothing unless \<^verbatim>\<open>NODE_ENV\<close> is \<^verbatim>\<open>development\<close>. Then it
  evaluates \<^verbatim>\<open>'response' in response.data\<close>, which throws a \<^verbatim>\<open>TypeError\<close> when the body is
  not an object. \<open>debug = None\<close> stands for any other \<^verbatim>\<open>NODE_ENV\<close>, \<open>debug = Some t\<close> for
  \<^verbatim>\<open>development\<close> with \<open>t\<close> the text of that \<^verbatim>\<open>TypeError\<close>.
\<close>

definition logResponseDebug :: "string option \<Rightarrow> 'd http_response \<Rightarrow> js_error + unit" where
  "logResponseDebug debug resp =
     (case debug of
        None \<Rightarrow> Inr ()
      | Some in_operator_text \<Rightarrow>
          (case data resp of Object d \<Rightarrow> Inr () | _ \<Rightarrow> Inl (Error in_operator_text)))"

text \<open>What the validation of the response reads of the body.\<close>

definition falsy :: "'d body \<Rightarrow> bool" where
  "falsy b = (case b of Nullish \<Rightarrow> True | Primitive truthy _ \<Rightarrow> \<not> truthy | Object _ \<Rightarrow> False)"

definition JSON_stringify :: "generate_data body \<Rightarrow> string" where
  "JSON_stringify b =
     (case b of Nullish \<Rightarrow> ''null'' | Primitive _ text \<Rightarrow> text | Object d \<Rightarrow> json_text d)"

text \<open>
  \<^verbatim>\<open>response.data.hasOwnProperty('response')\<close>: on an object with a key of its own named
  \<^verbatim>\<open>hasOwnProperty\<close> the call throws the \<^verbatim>\<open>TypeError\<close> of calling what is no function;
  a string, number or boolean has no property of its own named \<^verbatim>\<open>response\<close>.
  \<^verbatim>\<open>response.data.response\<close> reads the property.
\<close>

definition not_a_function :: js_error where
  "not_a_function = Error ''response.data.hasOwnProperty is not a function''"

definition hasOwnProperty_response :: "generate_data body \<Rightarrow> js_error + bool" where
  "hasOwnProperty_response b =
     (case b of
        Nullish \<Rightarrow> Inl property_of_nullish
      | Primitive _ _ \<Rightarrow> Inr False
      | Object d \<Rightarrow>
          if hasOwnProperty_key d then Inl not_a_function
          else Inr (response_field d \<noteq> Missing))"

definition response_property :: "generate_data body \<Rightarrow> field" where
  "response_property b = (case b of Object d \<Rightarrow> response_field d | _ \<Rightarrow> Missing)"

definition total_duration_property :: "generate_data body \<Rightarrow> int option" where
  "total_duration_property b = (case b of Object d \<Rightarrow> total_duration d | _ \<Rightarrow> None)"

record classification_result =
  success :: bool
  classification :: string
  result_model :: string
  result_prompt :: string
  processingTime :: int

text \<open>
  The \<^verbatim>\<open>try\<close> block of the work function that \<^verbatim>\<open>classifyImage\<close> hands to
  \<^verbatim>\<open>queueRequest\<close>, from the response of the \<^verbatim>\<open>POST\<close> on. \<open>elapsed\<close> is the locally
  measured \<^verbatim>\<open>Date.now() - startTime\<close>.
\<close>

definition classifyImage_response ::
  "'r OllamaService \<Rightarrow> string \<Rightarrow> generate_data http_response \<Rightarrow> int \<Rightarrow>
   js_error + classification_result" where
  "classifyImage_response s prompt resp elapsed =
     (if falsy (data resp) then
        Inl (Error ''Empty response from Ollama API'')
      else if status resp \<noteq> 200 then
        Inl (Error (''Ollama API returned status '' @ Number_toString (status resp) @ '': '' @
                    JSON_stringify (data resp)))
      else case hasOwnProperty_response (data resp) of
        Inl error \<Rightarrow> Inl error
      | Inr has_response \<Rightarrow>
      if \<not> has_response then
        Inl (Error (''Ollama API response is missing the '' @ [CHR 0x22] @ ''response'' @
                    [CHR 0x22] @ '' field''))
      else case response_property (data resp) of
        Missing \<Rightarrow> Inl (Error ''Ollama API response field is null or undefined'')
      | NullOrUndefined \<Rightarrow> Inl (Error ''Ollama API response field is null or undefined'')
      | Present text \<Rightarrow>
          Inr \<lparr>success = True,
               classification = String_trim text,
               result_model = model s,
               result_prompt = prompt,
               processingTime =
                 (case total_duration_property (data resp) of
                    None \<Rightarrow> elapsed
                  | Some d \<Rightarrow>
                      if d \<noteq> 0 then Math_round (binary64 (binary64 (of_int d) / 1000000))
                      else elapsed)\<rparr>)"

text \<open>
  The whole \<^verbatim>\<open>try\<close> block: the two pre-flight probes (each with its own
  \<^verbatim>\<open>GET /api/tags\<close>), the \<^verbatim>\<open>POST\<close>, the debug logging, the validation.
\<close>

definition classifyImage_try ::
  "'r OllamaService \<Rightarrow> string option \<Rightarrow> string \<Rightarrow>
   js_error + tags_data http_response \<Rightarrow> js_error + tags_data http_response \<Rightarrow>
   js_error + generate_data http_response \<Rightarrow> int \<Rightarrow> js_error + classification_result" where
  "classifyImage_try s debug prompt tags1 tags2 post elapsed =
     (case isAvailable tags1 of
        Inl error \<Rightarrow> Inl error
      | Inr isServiceAvailable \<Rightarrow>
     if \<not> isServiceAvailable then
       Inl (Error ''Ollama service is not available. Please ensure Ollama is running.'')
     else case isModelAvailable (model s) tags2 of
        Inl error \<Rightarrow> Inl error
      | Inr isModelReady \<Rightarrow>
     if \<not> isModelReady then
       Inl (Error (''Model '' @ [CHR 0x27] @ model s @ [CHR 0x27] @
                   '' is not available. Please run: ollama pull '' @ model s))
     else case post of
        Inl error \<Rightarrow> Inl error
      | Inr resp \<Rightarrow>
     (case logResponseDebug debug resp of
        Inl error \<Rightarrow> Inl error
      | Inr _ \<Rightarrow> classifyImage_response s prompt resp elapsed))"

text \<open>
  The work function: whatever the \<^verbatim>\<open>try\<close> block throws goes through
  \<^verbatim>\<open>handleNetworkError\<close>. \<^verbatim>\<open>executeRequest\<close> passes the outcome of the work function to
  the caller's promise unchanged.
\<close>

definition classifyImage_work ::
  "'r OllamaService \<Rightarrow> string option \<Rightarrow> string \<Rightarrow>
   js_error + tags_data http_response \<Rightarrow> js_error + tags_data http_response \<Rightarrow>
   js_error + generate_data http_response \<Rightarrow> int \<Rightarrow> js_error + classification_result" where
  "classifyImage_work s debug prompt tags1 tags2 post elapsed =
     (case classifyImage_try s debug prompt tags1 tags2 post elapsed of
        Inl error \<Rightarrow> Inl (handleNetworkError error)
      | Inr result \<Rightarrow> Inr result)"

text \<open>
  \<^verbatim>\<open>classifyImage\<close> itself hands the work function to \<^verbatim>\<open>queueRequest\<close> and awaits
  the promise. When the work of the item returns, the continuation of
  \<^verbatim>\<open>executeRequest\<close> settles the promise with the outcome of the work function.
\<close>

definition classifyImage ::
  "int \<Rightarrow> classification_result OllamaService \<Rightarrow>
   submission \<times> classification_result OllamaService" where
  "classifyImage now s = queueRequest now s"

definition classifyImage_returns ::
  "nat \<Rightarrow> string option \<Rightarrow> string \<Rightarrow>
   js_error + tags_data http_response \<Rightarrow> js_error + tags_data http_response \<Rightarrow>
   js_error + generate_data http_response \<Rightarrow> int \<Rightarrow> (nat \<Rightarrow> int) \<Rightarrow>
   classification_result OllamaService \<Rightarrow> classification_result OllamaService" where
  "classifyImage_returns i debug prompt tags1 tags2 post elapsed clock s =
     executeRequest_end i (classifyImage_work s debug prompt tags1 tags2 post elapsed) clock s"

section \<open>The status report\<close>

record configuration =
  cfg_timeout :: int
  cfg_baseURL :: string
  cfg_maxConcurrentRequests :: int
  cfg_maxQueueSize :: int

record status_report =
  service_available :: bool
  service_url :: string
  service_error :: "string option"
  model_name :: string
  model_available :: bool
  configuration :: "configuration option"
  queue_currentRequests :: int
  queue_queuedRequests :: nat
  queue_queueUtilization :: "string option"

text \<open>
  The template \<^verbatim>\<open>${Math.round((currentRequests / maxConcurrentRequests) * 100)}%\<close>.
  Division by zero gives \<^verbatim>\<open>NaN\<close> or an infinity.
\<close>

definition queueUtilization :: "int \<Rightarrow> int \<Rightarrow> string" where
  "queueUtilization current maxConcurrent =
     (if maxConcurrent = 0 then
        (if current = 0 then ''NaN'' else if 0 < current then ''Infinity'' else ''-Infinity'')
      else Number_toString
             (Math_round (binary64 (binary64 (of_int current / of_int maxConcurrent) * 100))))
     @ ''%''"

text \<open>
  \<^verbatim>\<open>getStatus\<close>: its \<^verbatim>\<open>try\<close>/\<^verbatim>\<open>catch\<close> over the outcomes of the two awaited probes, and
  the method with the probes as the source has them.
\<close>

definition getStatus_body ::
  "'r OllamaService \<Rightarrow> js_error + bool \<Rightarrow> js_error + bool \<Rightarrow> js_error + status_report" where
  "getStatus_body s probe1 probe2 =
     (let failed = (\<lambda>error.
            \<lparr>service_available = False, service_url = baseURL s,
             service_error = Some (message error),
             model_name = model s, model_available = False,
             configuration = None,
             queue_currentRequests = currentRequests s,
             queue_queuedRequests = length (requestQueue s),
             queue_queueUtilization = None\<rparr>)
      in case probe1 of
           Inl error \<Rightarrow> Inr (failed error)
         | Inr available \<Rightarrow>
             (case probe2 of
                Inl error \<Rightarrow> Inr (failed error)
              | Inr isModelReady \<Rightarrow>
                  Inr \<lparr>service_available = available, service_url = baseURL s,
                       service_error = None,
                       model_name = model s, model_available = isModelReady,
                       configuration =
                         Some \<lparr>cfg_timeout = timeout s, cfg_baseURL = baseURL s,
                               cfg_maxConcurrentRequests = maxConcurrentRequests s,
                               cfg_maxQueueSize = maxQueueSize s\<rparr>,
                       queue_currentRequests = currentRequests s,
                       queue_queuedRequests = length (requestQueue s),
                       queue_queueUtilization =
                         Some (queueUtilization (currentRequests s) (maxConcurrentRequests s))\<rparr>))"

definition getStatus ::
  "'r OllamaService \<Rightarrow> js_error + tags_data http_response \<Rightarrow>
   js_error + tags_data http_response \<Rightarrow> js_error + status_report" where
  "getStatus s tags1 tags2 =
     getStatus_body s (isAvailable tags1) (isModelAvailable (model s) tags2)"

section \<open>Reachable states and what they satisfy\<close>

text \<open>
  JavaScript runs each of the following to completion before anything else touches the
  service: a call of \<^verbatim>\<open>queueRequest\<close>, the continuation of \<^verbatim>\<open>executeRequest\<close> once
  the awaited work has returned (only an item that is executing has such a
  continuation), and a call of \<^verbatim>\<open>processQueue\<close>.
\<close>

inductive reachable :: "environment \<Rightarrow> 'r OllamaService \<Rightarrow> bool" for env where
  start: "reachable env (constructor env)"
| submit: "reachable env s \<Longrightarrow> reachable env (snd (queueRequest now s))"
| complete: "reachable env s \<Longrightarrow> i \<in> set (executing s) \<Longrightarrow>
     reachable env (executeRequest_end i outcome clock s)"
| drain: "reachable env s \<Longrightarrow> reachable env (processQueue clock s)"

text \<open>The two steps \<^verbatim>\<open>processQueue\<close> takes on the head of the queue.\<close>

definition expire_head :: "'r OllamaService \<Rightarrow> 'r OllamaService" where
  "expire_head s =
     s\<lparr>requestQueue := tl (requestQueue s),
       settled := settled s @ [(item_id (hd (requestQueue s)), Inl queue_timeout_error)],
       timedOut := timedOut s @ [item_id (hd (requestQueue s))]\<rparr>"

definition admit_head :: "'r OllamaService \<Rightarrow> 'r OllamaService" where
  "admit_head s = executeRequest_begin (hd (requestQueue s)) (s\<lparr>requestQueue := tl (requestQueue s)\<rparr>)"

text \<open>
  The number of leading queue items that have waited too long at the moment they reach
  the head, and the rejection of a list of items as \<^verbatim>\<open>processQueue\<close> does it.
\<close>

fun expired_prefix :: "(nat \<Rightarrow> int) \<Rightarrow> queue_item list \<Rightarrow> nat" where
  "expired_prefix clock [] = 0"
| "expired_prefix clock (q # qs) =
     (if clock 0 - timestamp q > 30000 then Suc (expired_prefix (\<lambda>k. clock (Suc k)) qs) else 0)"

definition reject_expired :: "queue_item list \<Rightarrow> 'r OllamaService \<Rightarrow> 'r OllamaService" where
  "reject_expired qs s =
     s\<lparr>settled := settled s @ map (\<lambda>q. (item_id q, Inl queue_timeout_error)) qs,
       timedOut := timedOut s @ map item_id qs\<rparr>"

text \<open>State predicates used in the proofs.\<close>

definition counters_ok :: "'r OllamaService \<Rightarrow> bool" where
  "counters_ok s \<longleftrightarrow>
     currentRequests s = int (length (executing s)) \<and>
     (currentRequests s \<le> maxConcurrentRequests s \<or> executing s = []) \<and>
     (int (length (requestQueue s)) \<le> maxQueueSize s \<or> requestQueue s = [])"

definition queue_waits :: "'r OllamaService \<Rightarrow> bool" where
  "queue_waits s \<longleftrightarrow> requestQueue s = [] \<or> maxConcurrentRequests s \<le> currentRequests s"

definition ids_distinct :: "'r OllamaService \<Rightarrow> bool" where
  "ids_distinct s \<longleftrightarrow>
     distinct (map item_id (requestQueue s) @ executing s @ map fst (settled s)) \<and>
     set (map item_id (requestQueue s)) \<union> set (executing s) \<union> set (map fst (settled s))
       = {..<nextItem s}"

definition invoked_ok :: "'r OllamaService \<Rightarrow> bool" where
  "invoked_ok s \<longleftrightarrow>
     distinct (invoked s) \<and>
     set (invoked s) = set (executing s) \<union> (set (map fst (settled s)) - set (timedOut s)) \<and>
     set (timedOut s) \<subseteq> set (map fst (settled s))"

definition queue_in_order :: "'r OllamaService \<Rightarrow> bool" where
  "queue_in_order s \<longleftrightarrow>
     sorted_wrt (<) (map item_id (requestQueue s)) \<and>
     (\<forall>q \<in> set (requestQueue s). item_id q < nextItem s)"

definition within_bounds :: "'r OllamaService \<Rightarrow> bool" where
  "within_bounds s \<longleftrightarrow>
     0 \<le> currentRequests s \<and> currentRequests s \<le> maxConcurrentRequests s \<and>
     0 \<le> int (length (requestQueue s)) \<and> int (length (requestQueue s)) \<le> maxQueueSize s"

definition default_env :: environment where
  "default_env = \<lparr>OLLAMA_API_URL = None, OLLAMA_MODEL = None,
                   OLLAMA_MAX_CONCURRENT = None, OLLAMA_MAX_QUEUE_SIZE = None\<rparr>"

text \<open>
  Environments with a negative limit: \<^verbatim>\<open>parseInt('-1') || 3\<close> is \<open>-1\<close>.
\<close>

definition negative_concurrency_env :: environment where
  "negative_concurrency_env = \<lparr>OLLAMA_API_URL = None, OLLAMA_MODEL = None,
                   OLLAMA_MAX_CONCURRENT = Some (- 1), OLLAMA_MAX_QUEUE_SIZE = None\<rparr>"

definition negative_queue_env :: environment where
  "negative_queue_env = \<lparr>OLLAMA_API_URL = None, OLLAMA_MODEL = None,
                   OLLAMA_MAX_CONCURRENT = None, OLLAMA_MAX_QUEUE_SIZE = Some (- 1)\<rparr>"

definition same_configuration :: "'r OllamaService \<Rightarrow> 'r OllamaService \<Rightarrow> bool" where
  "same_configuration s0 s \<longleftrightarrow>
     baseURL s = baseURL s0 \<and> model s = model s0 \<and> timeout s = timeout s0 \<and>
     maxConcurrentRequests s = maxConcurrentRequests s0 \<and> maxQueueSize s = maxQueueSize s0"

text \<open>
  Example states: three submissions to a fresh default service fill the three slots;
  further submissions wait in the queue.
\<close>

definition busy_service :: "string OllamaService" where
  "busy_service =
     snd (queueRequest 0 (snd (queueRequest 0 (snd (queueRequest 0 (constructor default_env))))))"

definition backlog_service :: "string OllamaService" where
  "backlog_service =
     snd (queueRequest 20000 (snd (queueRequest 1000 (snd (queueRequest 0 busy_service)))))"

definition full_service :: "string OllamaService" where
  "full_service = ((\<lambda>s. snd (queueRequest 0 s)) ^^ 10) busy_service"

text \<open>
  Fresh services with a negative limit, and the second of them after one submission.
\<close>

definition negative_queue_service :: "string OllamaService" where
  "negative_queue_service = constructor negative_queue_env"

definition negative_concurrency_service :: "string OllamaService" where
  "negative_concurrency_service = constructor negative_concurrency_env"

definition starved_service :: "string OllamaService" where
  "starved_service = snd (queueRequest 0 negative_concurrency_service)"

text \<open>
  The items that still wait for their outcome, and a run of the event loop in which the
  work of executing items returns, one after the other, and no new request is submitted:
  in round \<open>n\<close> the work of the executing item at position \<open>pick n\<close> (modulo the
  number of executing items) returns, with \<open>work i\<close> the outcome of item \<open>i\<close> and
  \<open>clock n\<close> the clock of the drain that follows. \<open>outcome_of work\<close> holds what an item
  can be settled with in such a run.
\<close>

definition pending :: "'r OllamaService \<Rightarrow> nat" where
  "pending s = length (requestQueue s) + length (executing s)"

fun complete_all ::
  "nat \<Rightarrow> (nat \<Rightarrow> nat) \<Rightarrow> (nat \<Rightarrow> js_error + 'r) \<Rightarrow> (nat \<Rightarrow> nat \<Rightarrow> int) \<Rightarrow>
   'r OllamaService \<Rightarrow> 'r OllamaService" where
  "complete_all 0 pick work clock s = s"
| "complete_all (Suc n) pick work clock s =
     (if executing s = [] then s
      else let i = executing s ! (pick n mod length (executing s))
           in complete_all n pick work clock (executeRequest_end i (work i) (clock n) s))"

definition outcome_of :: "(nat \<Rightarrow> js_error + 'r) \<Rightarrow> (nat \<times> (js_error + 'r)) set" where
  "outcome_of work = {(i, out). out = work i \<or> out = Inl queue_timeout_error}"

text \<open>
  Names for the messages of \<^verbatim>\<open>handleNetworkError\<close>, for the error codes it knows, for
  the message of the error each validation check throws (under \<^verbatim>\<open>NODE_ENV=development\<close>
  the debug logging throws first when the body is not an object), and example inputs.
\<close>

definition timed_out_message :: string where
  "timed_out_message = ''Request to Ollama service timed out. The image might be too large or complex, or the service may be overloaded.''"

definition connect_refused_message :: string where
  "connect_refused_message = ''Cannot connect to Ollama service. Please ensure Ollama is running and accessible at the configured URL.''"

definition dns_not_found_message :: string where
  "dns_not_found_message = ''Ollama service URL not found. Please check your OLLAMA_API_URL configuration.''"

definition network_unreachable_message :: string where
  "network_unreachable_message = ''Network unreachable. Please check your network connection and Ollama service configuration.''"

definition endpoint_not_found_message :: string where
  "endpoint_not_found_message = ''Ollama API endpoint not found. Please check your Ollama installation and version.''"

definition server_error_message :: string where
  "server_error_message = ''Ollama service is experiencing internal issues. Please try again later.''"

definition transport_messages :: "string list" where
  "transport_messages =
     [timed_out_message, connect_refused_message, dns_not_found_message,
      network_unreachable_message, endpoint_not_found_message, server_error_message]"

definition known_code :: "js_error \<Rightarrow> bool" where
  "known_code error \<longleftrightarrow>
     code error \<in> Some ` {''ETIMEDOUT'', ''TIMEOUT'', ''ECONNREFUSED'', ''ENOTFOUND'', ''ENETUNREACH''}"

definition tags_ok :: "js_error + tags_data http_response" where
  "tags_ok = Inr \<lparr>status = 200, data = Object \<lparr>models = Some [\<lparr>name = ''moondream:latest''\<rparr>]\<rparr>\<rparr>"

definition default_service :: "classification_result OllamaService" where
  "default_service = constructor default_env"






definition generated :: "string \<Rightarrow> int \<Rightarrow> generate_data http_response" where
  "generated text duration =
     \<lparr>status = 200,
      data = Object \<lparr>response_field = Present text, total_duration = Some duration,
                     hasOwnProperty_key = False,
                     json_text = ''{'' @ [CHR 0x22] @ ''response'' @ [CHR 0x22] @ '':'' @
                       [CHR 0x22] @ text @ [CHR 0x22] @ '','' @ [CHR 0x22] @
                       ''total_duration'' @ [CHR 0x22] @ '':'' @ Number_toString duration @ ''}''\<rparr>\<rparr>"




section \<open>Lemmas about the queue\<close>

declare processQueue.simps [simp del] bitlen.simps [simp del] decimal.simps [simp del]
  strip_leading.simps [simp del]

lemma processQueue_rule:
  assumes stop: "\<And>s. \<not> (requestQueue s \<noteq> [] \<and> currentRequests s < maxConcurrentRequests s) \<Longrightarrow>
                     P s \<Longrightarrow> Q s"
    and expire: "\<And>s. requestQueue s \<noteq> [] \<Longrightarrow> currentRequests s < maxConcurrentRequests s \<Longrightarrow>
                     P s \<Longrightarrow> P (expire_head s)"
    and admit: "\<And>s. requestQueue s \<noteq> [] \<Longrightarrow> currentRequests s < maxConcurrentRequests s \<Longrightarrow>
                     P s \<Longrightarrow> Q (admit_head s)"
  shows "P s \<Longrightarrow> Q (processQueue clock s)"
proof (induction clock s rule: processQueue.induct)
  case (1 clock s)
  show ?case
  proof (cases "requestQueue s \<noteq> [] \<and> currentRequests s < maxConcurrentRequests s")
    case False
    then have "processQueue clock s = s" by (subst processQueue.simps) auto
    with stop[of s] False 1(2) show ?thesis by simp
  next
    case True
    show ?thesis
    proof (cases "clock 0 - timestamp (hd (requestQueue s)) > 30000")
      case False
      have "processQueue clock s = admit_head s"
        using True False by (subst processQueue.simps) (simp add: Let_def admit_head_def)
      with admit[of s] True 1(2) show ?thesis by simp
    next
      case exp: True
      have eq: "processQueue clock s = processQueue (\<lambda>k. clock (Suc k)) (expire_head s)"
        using True exp by (subst processQueue.simps) (simp add: Let_def expire_head_def)
      have "P (expire_head s)" using expire[of s] True 1(2) by simp
      then have "Q (processQueue (\<lambda>k. clock (Suc k)) (expire_head s))"
        using 1(1)[OF _ refl refl refl] True exp by (simp add: expire_head_def)
      with eq show ?thesis by simp
    qed
  qed
qed

lemma processQueue_preserves:
  assumes "\<And>s. requestQueue s \<noteq> [] \<Longrightarrow> currentRequests s < maxConcurrentRequests s \<Longrightarrow>
                     P s \<Longrightarrow> P (expire_head s)"
    and "\<And>s. requestQueue s \<noteq> [] \<Longrightarrow> currentRequests s < maxConcurrentRequests s \<Longrightarrow>
                     P s \<Longrightarrow> P (admit_head s)"
  shows "P s \<Longrightarrow> P (processQueue clock s)"
  by (erule processQueue_rule [where Q = P, rotated 3]) (auto intro: assms)

lemma queue_waits_processQueue:
  "requestQueue s = [] \<or> maxConcurrentRequests s \<le> currentRequests s + 1 \<Longrightarrow>
   queue_waits (processQueue clock s)"
  by (erule processQueue_rule [rotated 3])
     (auto simp: queue_waits_def expire_head_def admit_head_def executeRequest_begin_def)

lemma counters_ok_processQueue: "counters_ok s \<Longrightarrow> counters_ok (processQueue clock s)"
  by (erule processQueue_preserves [rotated 2])
     (auto simp: counters_ok_def expire_head_def admit_head_def executeRequest_begin_def neq_Nil_conv)

lemma ids_distinct_expire:
  "requestQueue s \<noteq> [] \<Longrightarrow> ids_distinct s \<Longrightarrow> ids_distinct (expire_head s)"
  by (cases "requestQueue s") (auto simp: ids_distinct_def expire_head_def)

lemma ids_distinct_admit:
  "requestQueue s \<noteq> [] \<Longrightarrow> ids_distinct s \<Longrightarrow> ids_distinct (admit_head s)"
  by (cases "requestQueue s") (auto simp: ids_distinct_def admit_head_def executeRequest_begin_def)

lemma ids_distinct_processQueue: "ids_distinct s \<Longrightarrow> ids_distinct (processQueue clock s)"
  by (erule processQueue_preserves [rotated 2]) (simp_all add: ids_distinct_expire ids_distinct_admit)

lemma invoked_ok_expire:
  "requestQueue s \<noteq> [] \<Longrightarrow> ids_distinct s \<Longrightarrow> invoked_ok s \<Longrightarrow> invoked_ok (expire_head s)"
  by (cases "requestQueue s") (auto simp: ids_distinct_def invoked_ok_def expire_head_def)

lemma invoked_ok_admit:
  "requestQueue s \<noteq> [] \<Longrightarrow> ids_distinct s \<Longrightarrow> invoked_ok s \<Longrightarrow> invoked_ok (admit_head s)"
  by (cases "requestQueue s")
     (auto simp: ids_distinct_def invoked_ok_def admit_head_def executeRequest_begin_def)

lemma invoked_ok_processQueue:
  assumes "ids_distinct s" "invoked_ok s"
  shows "invoked_ok (processQueue clock s)"
proof -
  have "ids_distinct s \<and> invoked_ok s \<Longrightarrow>
        ids_distinct (processQueue clock s) \<and> invoked_ok (processQueue clock s)"
    by (erule processQueue_preserves [rotated 2])
       (simp_all add: ids_distinct_expire ids_distinct_admit invoked_ok_expire invoked_ok_admit)
  with assms show ?thesis by simp
qed

lemma counters_ok_queueRequest: "counters_ok s \<Longrightarrow> counters_ok (snd (queueRequest now s))"
  by (auto simp: counters_ok_def queueRequest_def executeRequest_begin_def Let_def)

lemma ids_distinct_queueRequest: "ids_distinct s \<Longrightarrow> ids_distinct (snd (queueRequest now s))"
  by (auto simp: ids_distinct_def queueRequest_def executeRequest_begin_def Let_def lessThan_Suc)

lemma invoked_ok_queueRequest:
  "ids_distinct s \<Longrightarrow> invoked_ok s \<Longrightarrow> invoked_ok (snd (queueRequest now s))"
  by (auto simp: ids_distinct_def invoked_ok_def queueRequest_def executeRequest_begin_def Let_def)

lemma counters_ok_settle:
  "i \<in> set (executing s) \<Longrightarrow> counters_ok s \<Longrightarrow>
   currentRequests (executeRequest_settle i outcome s) = int (length (executing (executeRequest_settle i outcome s))) \<and>
   currentRequests (executeRequest_settle i outcome s) < maxConcurrentRequests s"
proof -
  assume i: "i \<in> set (executing s)" and ok: "counters_ok s"
  from i have pos: "0 < length (executing s)" by (rule length_pos_if_in_set)
  then have "Suc 0 \<le> length (executing s)" by (cases "executing s") auto
  with i have "int (length (remove1 i (executing s))) = int (length (executing s)) - 1"
    by (simp add: length_remove1)
  with ok pos show ?thesis
    by (auto simp: counters_ok_def executeRequest_settle_def)
qed

lemma ids_distinct_settle:
  "i \<in> set (executing s) \<Longrightarrow> ids_distinct s \<Longrightarrow> ids_distinct (executeRequest_settle i outcome s)"
  by (auto simp: ids_distinct_def executeRequest_settle_def)

lemma invoked_ok_settle:
  "i \<in> set (executing s) \<Longrightarrow> ids_distinct s \<Longrightarrow> invoked_ok s \<Longrightarrow>
   invoked_ok (executeRequest_settle i outcome s)"
  by (auto simp: ids_distinct_def invoked_ok_def executeRequest_settle_def)

lemma counters_ok_end:
  assumes "i \<in> set (executing s)" "counters_ok s"
  shows "counters_ok (executeRequest_end i outcome clock s)"
proof -
  have "counters_ok (executeRequest_settle i outcome s)"
    using counters_ok_settle[OF assms, of outcome] assms(2)
    by (auto simp: counters_ok_def executeRequest_settle_def)
  then show ?thesis
    unfolding executeRequest_end_def by (rule counters_ok_processQueue)
qed

lemma queue_waits_queueRequest: "queue_waits s \<Longrightarrow> queue_waits (snd (queueRequest now s))"
  by (auto simp: queue_waits_def queueRequest_def executeRequest_begin_def Let_def)

lemma queue_waits_drain: "queue_waits s \<Longrightarrow> queue_waits (processQueue clock s)"
  by (rule queue_waits_processQueue) (auto simp: queue_waits_def)

lemma queue_waits_end:
  "queue_waits s \<Longrightarrow> queue_waits (executeRequest_end i outcome clock s)"
  unfolding executeRequest_end_def
  by (rule queue_waits_processQueue) (auto simp: queue_waits_def executeRequest_settle_def)

lemma reachable_invariants:
  "reachable env s \<Longrightarrow> counters_ok s \<and> queue_waits s \<and> ids_distinct s \<and> invoked_ok s"
proof (induction rule: reachable.induct)
  case start
  show ?case
    by (simp add: counters_ok_def queue_waits_def ids_distinct_def invoked_ok_def constructor_def)
next
  case (submit s now)
  then show ?case
    by (simp add: counters_ok_queueRequest queue_waits_queueRequest
          ids_distinct_queueRequest invoked_ok_queueRequest)
next
  case (complete s i outcome clock)
  then show ?case
    by (simp add: counters_ok_end queue_waits_end)
       (simp add: executeRequest_end_def ids_distinct_settle invoked_ok_settle
          ids_distinct_processQueue invoked_ok_processQueue)
next
  case (drain s clock)
  then show ?case
    by (simp add: counters_ok_processQueue ids_distinct_processQueue invoked_ok_processQueue
          queue_waits_drain)
qed

lemma queue_in_order_processQueue:
  "queue_in_order s \<Longrightarrow> queue_in_order (processQueue clock s)"
  by (erule processQueue_preserves [rotated 2])
     (auto simp: queue_in_order_def expire_head_def admit_head_def executeRequest_begin_def
        neq_Nil_conv)

lemma queue_in_order_queueRequest:
  "queue_in_order s \<Longrightarrow> queue_in_order (snd (queueRequest now s))"
  by (auto simp: queue_in_order_def queueRequest_def executeRequest_begin_def Let_def
      sorted_wrt_append less_Suc_eq)

lemma reachable_queue_in_order: "reachable env s \<Longrightarrow> queue_in_order s"
proof (induction rule: reachable.induct)
  case start
  show ?case by (simp add: queue_in_order_def constructor_def)
next
  case (submit s now)
  then show ?case by (simp add: queue_in_order_queueRequest)
next
  case (complete s i outcome clock)
  then have "queue_in_order (executeRequest_settle i outcome s)"
    by (simp add: queue_in_order_def executeRequest_settle_def)
  then show ?case unfolding executeRequest_end_def by (rule queue_in_order_processQueue)
next
  case (drain s clock)
  then show ?case by (simp add: queue_in_order_processQueue)
qed

lemma expired_prefix_le: "expired_prefix clock qs \<le> length qs"
  by (induction qs arbitrary: clock) auto

lemma expired_prefix_expired:
  "j < expired_prefix clock qs \<Longrightarrow> clock j - timestamp (qs ! j) > 30000"
proof (induction qs arbitrary: clock j)
  case Nil
  then show ?case by simp
next
  case (Cons q qs)
  then show ?case by (cases j) (auto split: if_splits)
qed

lemma expired_prefix_fresh:
  "expired_prefix clock qs < length qs \<Longrightarrow>
   \<not> clock (expired_prefix clock qs) - timestamp (qs ! expired_prefix clock qs) > 30000"
proof (induction qs arbitrary: clock)
  case Nil
  then show ?case by simp
next
  case (Cons q qs)
  then show ?case by (auto split: if_splits)
qed

lemma processQueue_closed:
  "processQueue clock s =
     (if currentRequests s < maxConcurrentRequests s then
        let qs = requestQueue s; k = expired_prefix clock qs;
            s2 = reject_expired (take k qs) s
        in if k < length qs
           then executeRequest_begin (qs ! k) (s2\<lparr>requestQueue := drop (Suc k) qs\<rparr>)
           else s2\<lparr>requestQueue := []\<rparr>
      else s)"
proof (induction clock s rule: processQueue.induct)
  case (1 clock s)
  show ?case
  proof (cases "requestQueue s")
    case Nil
    then show ?thesis
      by (subst processQueue.simps) (simp add: reject_expired_def)
  next
    case (Cons q qs)
    show ?thesis
    proof (cases "currentRequests s < maxConcurrentRequests s")
      case False
      then show ?thesis by (subst processQueue.simps) simp
    next
      case True
      show ?thesis
      proof (cases "clock 0 - timestamp q > 30000")
        case False
        with True Cons show ?thesis
          by (subst processQueue.simps) (simp add: reject_expired_def Let_def)
      next
        case exp: True
        let ?s' = "s\<lparr>requestQueue := qs,
               settled := settled s @ [(item_id q, Inl queue_timeout_error)],
               timedOut := timedOut s @ [item_id q]\<rparr>"
        have ih: "processQueue (\<lambda>k. clock (Suc k)) ?s' =
           (if currentRequests ?s' < maxConcurrentRequests ?s' then
              let qs = requestQueue ?s'; k = expired_prefix (\<lambda>k. clock (Suc k)) qs;
                  s2 = reject_expired (take k qs) ?s'
              in if k < length qs
                 then executeRequest_begin (qs ! k) (s2\<lparr>requestQueue := drop (Suc k) qs\<rparr>)
                 else s2\<lparr>requestQueue := []\<rparr>
            else ?s')"
          using 1[OF _ refl refl refl] True Cons exp by simp
        have step: "processQueue clock s = processQueue (\<lambda>k. clock (Suc k)) ?s'"
          using True Cons exp by (subst processQueue.simps) (simp add: Let_def)
        show ?thesis
          unfolding step ih using True Cons exp
          by (simp add: Let_def reject_expired_def executeRequest_begin_def)
      qed
    qed
  qed
qed

lemma same_configuration_processQueue:
  "same_configuration s0 s \<Longrightarrow> same_configuration s0 (processQueue clock s)"
  by (erule processQueue_preserves [rotated 2])
     (simp_all add: same_configuration_def expire_head_def admit_head_def executeRequest_begin_def)

lemma reachable_configuration:
  "reachable env s \<Longrightarrow> same_configuration (constructor env) s"
proof (induction rule: reachable.induct)
  case start
  show ?case by (simp add: same_configuration_def)
next
  case (submit s now)
  then show ?case
    by (simp add: same_configuration_def queueRequest_def executeRequest_begin_def Let_def)
next
  case (complete s i outcome clock)
  then have "same_configuration (constructor env) (executeRequest_settle i outcome s)"
    by (simp add: same_configuration_def executeRequest_settle_def)
  then show ?case
    unfolding executeRequest_end_def by (rule same_configuration_processQueue)
next
  case (drain s clock)
  from drain.IH show ?case by (rule same_configuration_processQueue)
qed

lemma reachable_busy_service: "reachable default_env busy_service"
  unfolding busy_service_def by (intro reachable.submit reachable.start)

lemma reachable_backlog_service: "reachable default_env backlog_service"
  unfolding backlog_service_def by (intro reachable.submit reachable_busy_service)

lemma reachable_funpow_submit:
  "reachable env s \<Longrightarrow> reachable env (((\<lambda>s. snd (queueRequest now s)) ^^ n) s)"
  by (induction n) (auto intro: reachable.submit)

lemma reachable_full_service: "reachable default_env full_service"
  unfolding full_service_def by (rule reachable_funpow_submit) (rule reachable_busy_service)

lemma busy_service_eq:
  "busy_service = (constructor default_env)\<lparr>currentRequests := 3, nextItem := 3,
      executing := [0, 1, 2], invoked := [0, 1, 2]\<rparr>"
  by (simp add: busy_service_def queueRequest_def executeRequest_begin_def constructor_def
        default_env_def parseInt_or_def string_or_def Let_def)

lemma backlog_service_eq:
  "backlog_service = busy_service\<lparr>nextItem := 6,
      requestQueue := [\<lparr>item_id = 3, timestamp = 0\<rparr>, \<lparr>item_id = 4, timestamp = 1000\<rparr>,
                       \<lparr>item_id = 5, timestamp = 20000\<rparr>]\<rparr>"
  by (simp add: backlog_service_def busy_service_eq queueRequest_def constructor_def
        default_env_def parseInt_or_def string_or_def Let_def)

lemma funpow_submit_busy:
  "n \<le> 10 \<Longrightarrow>
   ((\<lambda>s. snd (queueRequest 0 s)) ^^ n) busy_service =
     busy_service\<lparr>nextItem := 3 + n,
       requestQueue := map (\<lambda>i. \<lparr>item_id = i, timestamp = 0\<rparr>) [3..<3 + n]\<rparr>"
proof (induction n)
  case 0
  show ?case by (simp add: busy_service_eq constructor_def)
next
  case (Suc n)
  have "[3..<4 + n] = [3..<3 + n] @ [3 + n]"
    using upt_Suc_append[of 3 "3 + n"] by simp
  with Suc show ?case
    by (simp add: busy_service_eq queueRequest_def constructor_def default_env_def
          parseInt_or_def Let_def)
qed

lemma full_service_eq:
  "full_service = busy_service\<lparr>nextItem := 13,
      requestQueue := map (\<lambda>i. \<lparr>item_id = i, timestamp = 0\<rparr>) [3..<13]\<rparr>"
  unfolding full_service_def by (simp add: funpow_submit_busy)

text \<open>With a negative limit of concurrency no request is ever started.\<close>

lemma processQueue_no_slot:
  "\<not> currentRequests s < maxConcurrentRequests s \<Longrightarrow> processQueue clock s = s"
  by (subst processQueue.simps) simp

lemma negative_concurrency_idle:
  assumes "reachable negative_concurrency_env s"
  shows "maxConcurrentRequests s = - 1 \<and> currentRequests s = 0 \<and> executing s = [] \<and>
         invoked s = [] \<and> settled s = []"
  using assms
proof induction
  case start
  show ?case by (simp add: constructor_def negative_concurrency_env_def parseInt_or_def)
next
  case (submit s now)
  then show ?case by (simp add: queueRequest_def Let_def)
next
  case (complete s i outcome clock)
  then show ?case by simp
next
  case (drain s clock)
  then show ?case by (simp add: processQueue_no_slot)
qed

lemma starved_service_eq:
  "starved_service =
     (constructor negative_concurrency_env)\<lparr>requestQueue := [\<lparr>item_id = 0, timestamp = 0\<rparr>],
                                             nextItem := 1\<rparr>"
  by (simp add: starved_service_def negative_concurrency_service_def queueRequest_def Let_def
      constructor_def negative_concurrency_env_def parseInt_or_def)

lemma pending_processQueue: "pending s \<le> n \<Longrightarrow> pending (processQueue clock s) \<le> n"
  by (erule processQueue_preserves [rotated 2])
     (auto simp: pending_def expire_head_def admit_head_def executeRequest_begin_def neq_Nil_conv)

lemma pending_end:
  assumes "i \<in> set (executing s)"
  shows "pending (executeRequest_end i outcome clock s) < pending s"
proof -
  from assms have pos: "0 < length (executing s)" by (rule length_pos_if_in_set)
  have "pending (executeRequest_settle i outcome s) =
        length (requestQueue s) + (length (executing s) - 1)"
    using assms by (simp add: pending_def executeRequest_settle_def length_remove1)
  also have "\<dots> \<le> pending s - 1"
    unfolding pending_def using pos by linarith
  finally have "pending (executeRequest_settle i outcome s) \<le> pending s - 1" .
  then have "pending (executeRequest_end i outcome clock s) \<le> pending s - 1"
    unfolding executeRequest_end_def by (rule pending_processQueue)
  moreover from pos have "0 < pending s" unfolding pending_def by linarith
  ultimately show ?thesis by simp
qed

lemma nextItem_processQueue: "nextItem (processQueue clock s) = nextItem s"
proof -
  have "nextItem s = n \<Longrightarrow> nextItem (processQueue clock s) = n" for n
    by (erule processQueue_preserves [rotated 2])
       (simp_all add: expire_head_def admit_head_def executeRequest_begin_def)
  then show ?thesis by simp
qed

lemma nextItem_end: "nextItem (executeRequest_end i outcome clock s) = nextItem s"
  by (simp add: executeRequest_end_def nextItem_processQueue executeRequest_settle_def)

lemma settled_processQueue:
  "set (settled s) \<subseteq> A \<union> outcome_of work \<Longrightarrow>
   set (settled (processQueue clock s)) \<subseteq> A \<union> outcome_of work"
  by (erule processQueue_preserves [rotated 2])
     (auto simp: expire_head_def admit_head_def executeRequest_begin_def outcome_of_def)

lemma settled_end:
  "set (settled s) \<subseteq> A \<union> outcome_of work \<Longrightarrow>
   set (settled (executeRequest_end i (work i) clock s)) \<subseteq> A \<union> outcome_of work"
  unfolding executeRequest_end_def
  by (rule settled_processQueue) (auto simp: executeRequest_settle_def outcome_of_def)

lemma settled_end_mem:
  "(i, outcome) \<in> set (settled (executeRequest_end i outcome clock s))"
proof -
  have "{(i, outcome)} \<subseteq> set (settled (processQueue clock (executeRequest_settle i outcome s)))"
    by (rule processQueue_preserves [where P = "\<lambda>s. {(i, outcome)} \<subseteq> set (settled s)"])
       (simp_all add: expire_head_def admit_head_def executeRequest_begin_def
          executeRequest_settle_def)
  then show ?thesis by (simp add: executeRequest_end_def)
qed

lemma idle_queue_empty:
  assumes "reachable env s" "0 < maxConcurrentRequests s" "executing s = []"
  shows "requestQueue s = []"
proof -
  from assms(1) have "counters_ok s" "queue_waits s" by (simp_all add: reachable_invariants)
  with assms(2,3) show ?thesis by (auto simp: counters_ok_def queue_waits_def)
qed

lemma complete_all_quiescent:
  assumes "0 < maxConcurrentRequests (constructor env :: 'r OllamaService)"
  shows "reachable env (s :: 'r OllamaService) \<Longrightarrow> pending s \<le> n \<Longrightarrow>
         set (settled s) \<subseteq> A \<union> outcome_of work \<Longrightarrow>
         reachable env (complete_all n pick work clock s) \<and>
         requestQueue (complete_all n pick work clock s) = [] \<and>
         executing (complete_all n pick work clock s) = [] \<and>
         nextItem (complete_all n pick work clock s) = nextItem s \<and>
         set (settled (complete_all n pick work clock s)) \<subseteq> A \<union> outcome_of work"
proof (induction n arbitrary: s)
  case 0
  then show ?case by (simp add: pending_def)
next
  case (Suc n)
  have pos: "0 < maxConcurrentRequests s"
    using reachable_configuration[OF Suc.prems(1)] assms by (simp add: same_configuration_def)
  show ?case
  proof (cases "executing s = []")
    case True
    with idle_queue_empty[OF Suc.prems(1) pos] Suc.prems show ?thesis by simp
  next
    case False
    define i where "i = executing s ! (pick n mod length (executing s))"
    let ?s1 = "executeRequest_end i (work i) (clock n) s"
    have i: "i \<in> set (executing s)" unfolding i_def using False by simp
    have r1: "reachable env ?s1" using Suc.prems(1) i by (rule reachable.complete)
    have p1: "pending ?s1 \<le> n" using pending_end[OF i, of "work i" "clock n"] Suc.prems(2) by simp
    have s1: "set (settled ?s1) \<subseteq> A \<union> outcome_of work" using Suc.prems(3) by (rule settled_end)
    from Suc.IH[OF r1 p1 s1] False show ?thesis
      by (simp add: nextItem_end Let_def i_def[symmetric])
  qed
qed

lemma complete_all_example:
  "settled (complete_all 6 (\<lambda>n. 1) (\<lambda>i. Inr ''a cat'') (\<lambda>n k. 31500) backlog_service) =
     [(1, Inr ''a cat''), (3, Inl queue_timeout_error), (4, Inl queue_timeout_error),
      (2, Inr ''a cat''), (5, Inr ''a cat''), (0, Inr ''a cat'')]"
  by code_simp

section \<open>Lemmas about the probes, the classifier and the status report\<close>

lemma String_includes_sublist: "String_includes haystack needle \<longleftrightarrow> sublist needle haystack"
  by (induction haystack) (auto simp: sublist_Cons_right)

lemma isAvailable_total: "\<exists>b. isAvailable get = Inr b"
  by (auto simp: isAvailable_def isAvailable_try_def split: sum.splits)

lemma isModelAvailable_total: "\<exists>b. isModelAvailable this_model get = Inr b"
  by (auto simp: isModelAvailable_def split: sum.splits)

lemma binary64_zero: "binary64 0 = 0"
  by (simp add: binary64_def)

lemma Math_round_zero: "Math_round 0 = 0"
  unfolding Math_round_def by (rule floor_unique) simp_all

lemma decimal_zero: "decimal 0 = ''0''"
  by (subst decimal.simps) (simp add: digit_char_def)

lemma queueUtilization_idle: "m \<noteq> 0 \<Longrightarrow> queueUtilization 0 m = ''0%''"
  by (simp add: queueUtilization_def binary64_zero Math_round_zero Number_toString_def decimal_zero)

lemma constructor_maxConcurrent_nonzero:
  "maxConcurrentRequests (constructor env) \<noteq> 0"
  by (simp add: constructor_def parseInt_or_def split: option.splits)

lemma reachable_maxConcurrent_nonzero:
  assumes "reachable env s"
  shows "maxConcurrentRequests s \<noteq> 0"
proof -
  have "maxConcurrentRequests (constructor env :: 'a OllamaService) \<noteq> 0"
    by (rule constructor_maxConcurrent_nonzero)
  with reachable_configuration[OF assms] show ?thesis
    by (simp add: same_configuration_def)
qed

lemmas message_defs = timed_out_message_def connect_refused_message_def dns_not_found_message_def
  network_unreachable_message_def endpoint_not_found_message_def server_error_message_def

lemma classifyImage_try_post:
  assumes "isAvailable tags1 = Inr True" "isModelAvailable (model s) tags2 = Inr True"
  shows "classifyImage_try s debug prompt tags1 tags2 post elapsed =
           (case post of
              Inl error \<Rightarrow> Inl error
            | Inr resp \<Rightarrow>
                (case logResponseDebug debug resp of
                   Inl error \<Rightarrow> Inl error
                 | Inr _ \<Rightarrow> classifyImage_response s prompt resp elapsed))"
  by (simp add: classifyImage_try_def assms)


lemma default_service_model: "model default_service = ''moondream''"
  by (simp add: default_service_def constructor_def default_env_def string_or_def)

lemma tags_ok_available: "isAvailable tags_ok = Inr True"
  by (simp add: tags_ok_def isAvailable_def isAvailable_try_def)

lemma tags_ok_model: "isModelAvailable (model default_service) tags_ok = Inr True"
  by (simp add: tags_ok_def default_service_def constructor_def default_env_def string_or_def
        isModelAvailable_def isModelAvailable_try_def)




lemma Math_round_example: "Math_round (binary64 (binary64 1500000000 / 1000000)) = 1500"
  by code_simp

lemma backlog_service_fields:
  "requestQueue backlog_service =
     [\<lparr>item_id = 3, timestamp = 0\<rparr>, \<lparr>item_id = 4, timestamp = 1000\<rparr>,
      \<lparr>item_id = 5, timestamp = 20000\<rparr>]"
  "executing backlog_service = [0, 1, 2]" "invoked backlog_service = [0, 1, 2]"
  "settled backlog_service = []" "timedOut backlog_service = []"
  "currentRequests backlog_service = 3" "maxConcurrentRequests backlog_service = 3"
  "nextItem backlog_service = 6"
  by (simp_all add: backlog_service_eq busy_service_eq constructor_def default_env_def
      parseInt_or_def)

lemma queueUtilization_examples:
  "queueUtilization 1 3 = ''33%''" "queueUtilization 2 3 = ''67%''"
  "queueUtilization 3 3 = ''100%''" "queueUtilization 29 200 = ''14%''"
  by code_simp+

lemma String_trim_examples:
  "String_trim ''a cat'' = ''a cat''" "String_trim '' a cat '' = ''a cat''"
  "String_trim ([CHR 0xC2, CHR 0xA0, CHR 0x0A] @ ''a cat'' @ [CHR 0xE2, CHR 0x80, CHR 0xA8]) = ''a cat''"
  by code_simp+


section \<open>The claims about the request queue\<close>

text \<open>
  Claim C1. A call of \<^verbatim>\<open>queueRequest\<close> starts the work at once when fewer than
  \<open>maxConcurrentRequests\<close> requests are running (the counter goes up by one and the work
  function is called); otherwise, when the queue holds fewer than \<open>maxQueueSize\<close> items,
  it appends the item with the current timestamp and the promise stays pending;
  otherwise the promise is rejected at once with
  \<^verbatim>\<open>Request queue is full. Please try again later.\<close> and the service is left as it
  was, so the work function is never called. In the first two cases the new item has
  not been settled, and in no case had its work been called before.
\<close>

theorem queueRequest_admission:
  assumes "reachable env s"
  shows "(currentRequests s < maxConcurrentRequests s \<longrightarrow>
            queueRequest now s =
              (Started (nextItem s),
               s\<lparr>currentRequests := currentRequests s + 1,
                 executing := executing s @ [nextItem s],
                 invoked := invoked s @ [nextItem s],
                 nextItem := Suc (nextItem s)\<rparr>)) \<and>
         (\<not> currentRequests s < maxConcurrentRequests s \<and>
          int (length (requestQueue s)) < maxQueueSize s \<longrightarrow>
            queueRequest now s =
              (Queued (nextItem s),
               s\<lparr>requestQueue := requestQueue s @ [\<lparr>item_id = nextItem s, timestamp = now\<rparr>],
                 nextItem := Suc (nextItem s)\<rparr>)) \<and>
         (\<not> currentRequests s < maxConcurrentRequests s \<and>
          \<not> int (length (requestQueue s)) < maxQueueSize s \<longrightarrow>
            queueRequest now s =
              (RejectedNow (Error ''Request queue is full. Please try again later.''), s)) \<and>
         nextItem s \<notin> fst ` set (settled (snd (queueRequest now s))) \<and>
         nextItem s \<notin> set (invoked s)"
proof -
  from assms have "ids_distinct s" "invoked_ok s" by (simp_all add: reachable_invariants)
  then have fresh: "nextItem s \<notin> fst ` set (settled s)" "nextItem s \<notin> set (invoked s)"
    by (auto simp: ids_distinct_def invoked_ok_def)
  have "settled (snd (queueRequest now s)) = settled s"
    by (simp add: queueRequest_def executeRequest_begin_def Let_def)
  with fresh show ?thesis
    by (simp add: queueRequest_def executeRequest_begin_def Let_def queue_full_error_def)
qed

theorem queueRequest_admission_witness:
  "queueRequest 5 (constructor default_env :: string OllamaService) =
     (Started 0, (constructor default_env)\<lparr>currentRequests := 1, executing := [0],
                   invoked := [0], nextItem := 1\<rparr>) \<and>
   fst (queueRequest 5 busy_service) = Queued 3 \<and>
   requestQueue (snd (queueRequest 5 busy_service)) = [\<lparr>item_id = 3, timestamp = 5\<rparr>] \<and>
   queueRequest 5 full_service =
     (RejectedNow (Error ''Request queue is full. Please try again later.''), full_service)"
proof -
  have a: "currentRequests (constructor default_env :: string OllamaService) <
           maxConcurrentRequests (constructor default_env :: string OllamaService)"
    by (simp add: constructor_def default_env_def parseInt_or_def)
  have b: "\<not> currentRequests busy_service < maxConcurrentRequests busy_service"
          "int (length (requestQueue busy_service)) < maxQueueSize busy_service"
    by (simp_all add: busy_service_eq constructor_def default_env_def parseInt_or_def)
  have c: "\<not> currentRequests full_service < maxConcurrentRequests full_service"
          "\<not> int (length (requestQueue full_service)) < maxQueueSize full_service"
    by (simp_all add: full_service_eq busy_service_eq constructor_def default_env_def parseInt_or_def)
  have d: "nextItem busy_service = 3" "requestQueue busy_service = []"
    by (simp_all add: busy_service_eq constructor_def)
  show ?thesis
    using queueRequest_admission[OF reachable.start[where env = default_env and ?'r = string],
            where now = 5]
      queueRequest_admission[OF reachable_busy_service, where now = 5]
      queueRequest_admission[OF reachable_full_service, where now = 5]
      a b c d
    by (simp add: constructor_def)
qed

text \<open>
  Claim C2. When the work of an executing item returns (with a result or an error), the
  item is settled with that outcome, \<open>currentRequests\<close> goes down by one and the queue
  is drained. The queue holds the waiting items in the order of their submission. With
  \<open>k\<close> the number of leading items whose wait exceeds 30000 ms when they reach the
  head, these \<open>k\<close> items are rejected with the queue timeout error, in queue order,
  without their work being called and without touching the counter; item \<open>k\<close>, if
  there is one, is not expired and is started (counter up by one, work called), and the
  items behind it stay queued in their order. After the drain the queue is empty or no
  slot is free.
\<close>

theorem completion_drains_fifo:
  assumes "reachable env s" and "i \<in> set (executing s)"
  shows "let s1 = executeRequest_settle i outcome s;
             s' = executeRequest_end i outcome clock s;
             qs = requestQueue s;
             k = expired_prefix clock qs
         in sorted_wrt (<) (map item_id qs) \<and>
            currentRequests s1 = currentRequests s - 1 \<and>
            settled s1 = settled s @ [(i, outcome)] \<and>
            s' = processQueue clock s1 \<and>
            (\<forall>j<k. clock j - timestamp (qs ! j) > 30000) \<and>
            settled s' = settled s1 @ map (\<lambda>q. (item_id q, Inl queue_timeout_error)) (take k qs) \<and>
            timedOut s' = timedOut s @ map item_id (take k qs) \<and>
            requestQueue s' = drop (Suc k) qs \<and>
            (k < length qs \<longrightarrow>
               \<not> clock k - timestamp (qs ! k) > 30000 \<and>
               currentRequests s' = currentRequests s1 + 1 \<and>
               executing s' = remove1 i (executing s) @ [item_id (qs ! k)] \<and>
               invoked s' = invoked s @ [item_id (qs ! k)]) \<and>
            (\<not> k < length qs \<longrightarrow>
               currentRequests s' = currentRequests s1 \<and>
               executing s' = remove1 i (executing s) \<and>
               invoked s' = invoked s) \<and>
            (requestQueue s' = [] \<or> maxConcurrentRequests s' \<le> currentRequests s')"
proof -
  define s1 where "s1 = executeRequest_settle i outcome s"
  define qs where "qs = requestQueue s"
  define k where "k = expired_prefix clock qs"
  define s' where "s' = executeRequest_end i outcome clock s"
  from assms(1) have inv: "counters_ok s" "queue_waits s"
    by (simp_all add: reachable_invariants)
  have cap: "currentRequests s1 < maxConcurrentRequests s1"
    using counters_ok_settle[OF assms(2) inv(1), of outcome]
    by (simp add: executeRequest_settle_def s1_def)
  have q1: "requestQueue s1 = qs"
    by (simp add: s1_def qs_def executeRequest_settle_def)
  have eq: "s' = (if k < length qs
                  then executeRequest_begin (qs ! k)
                         ((reject_expired (take k qs) s1)\<lparr>requestQueue := drop (Suc k) qs\<rparr>)
                  else (reject_expired (take k qs) s1)\<lparr>requestQueue := []\<rparr>)"
    using cap q1
    by (simp add: s'_def executeRequest_end_def s1_def[symmetric] processQueue_closed[of clock s1]
          Let_def k_def)
  have le: "k \<le> length qs"
    unfolding k_def by (rule expired_prefix_le)
  have c1: "currentRequests s1 = currentRequests s - 1"
    and c2: "settled s1 = settled s @ [(i, outcome)]"
    and c3: "executing s1 = remove1 i (executing s)"
    and c4: "invoked s1 = invoked s" and c5: "timedOut s1 = timedOut s"
    by (simp_all add: s1_def executeRequest_settle_def)
  have d1: "s' = processQueue clock s1"
    by (simp add: s'_def s1_def executeRequest_end_def)
  have d2: "\<forall>j<k. clock j - timestamp (qs ! j) > 30000"
    unfolding k_def by (simp add: expired_prefix_expired)
  have d3: "settled s' = settled s1 @ map (\<lambda>q. (item_id q, Inl queue_timeout_error)) (take k qs)"
    and d4: "timedOut s' = timedOut s @ map item_id (take k qs)"
    and d5: "requestQueue s' = drop (Suc k) qs"
    using le by (simp_all add: eq reject_expired_def executeRequest_begin_def c5)
  have d6: "k < length qs \<longrightarrow>
               \<not> clock k - timestamp (qs ! k) > 30000 \<and>
               currentRequests s' = currentRequests s1 + 1 \<and>
               executing s' = remove1 i (executing s) @ [item_id (qs ! k)] \<and>
               invoked s' = invoked s @ [item_id (qs ! k)]"
    using expired_prefix_fresh[of clock qs]
    by (simp add: eq reject_expired_def executeRequest_begin_def c3 c4 k_def[symmetric])
  have d7: "\<not> k < length qs \<longrightarrow>
               currentRequests s' = currentRequests s1 \<and>
               executing s' = remove1 i (executing s) \<and>
               invoked s' = invoked s"
    by (simp add: eq reject_expired_def c3 c4)
  have d8: "requestQueue s' = [] \<or> maxConcurrentRequests s' \<le> currentRequests s'"
    using queue_waits_end[OF inv(2), of i outcome clock]
    by (simp add: queue_waits_def s'_def)
  have d0: "sorted_wrt (<) (map item_id qs)"
    using reachable_queue_in_order[OF assms(1)] by (simp add: queue_in_order_def qs_def)
  show ?thesis
    unfolding Let_def s1_def[symmetric] s'_def[symmetric] qs_def[symmetric] k_def[symmetric]
    using d0 c1 c2 d1 d2 d3 d4 d5 d6 d7 d8 by blast
qed

theorem completion_drains_fifo_witness:
  "reachable default_env backlog_service \<and> 0 \<in> set (executing backlog_service) \<and>
   (let s' = executeRequest_end 0 (Inr ''cat'') (\<lambda>k. 31500) backlog_service
    in requestQueue s' = [] \<and> timedOut s' = [3, 4] \<and> executing s' = [1, 2, 5] \<and>
       invoked s' = [0, 1, 2, 5] \<and> currentRequests s' = 3 \<and>
       settled s' = [(0, Inr ''cat''), (3, Inl queue_timeout_error), (4, Inl queue_timeout_error)])"
proof -
  have sel: "requestQueue backlog_service =
               [\<lparr>item_id = 3, timestamp = 0\<rparr>, \<lparr>item_id = 4, timestamp = 1000\<rparr>,
                \<lparr>item_id = 5, timestamp = 20000\<rparr>]"
     "executing backlog_service = [0, 1, 2]" "invoked backlog_service = [0, 1, 2]"
     "settled backlog_service = []" "timedOut backlog_service = []"
     "currentRequests backlog_service = 3"
    by (simp_all add: backlog_service_eq busy_service_eq constructor_def)
  have h: "0 \<in> set (executing backlog_service)"
    by (simp add: sel)
  have k: "expired_prefix (\<lambda>k. 31500) (requestQueue backlog_service) = 2"
    by (simp add: sel)
  note T = completion_drains_fifo[OF reachable_backlog_service h,
      of "Inr ''cat''" "\<lambda>k. 31500", unfolded Let_def k]
  show ?thesis
    unfolding Let_def
    using T[THEN conjunct2, THEN conjunct1] T[THEN conjunct2, THEN conjunct2, THEN conjunct1]
      T[THEN conjunct2, THEN conjunct2, THEN conjunct2, THEN conjunct2]
      reachable_backlog_service h
    by (simp add: sel)
qed

text \<open>
  Claim C3, as stated, fails: \<^verbatim>\<open>parseInt(process.env.OLLAMA_MAX_CONCURRENT) || 3\<close> keeps a
  negative number, so with \<^verbatim>\<open>OLLAMA_MAX_CONCURRENT=-1\<close> the constructor's state itself has
  \<open>currentRequests = 0\<close> above \<open>maxConcurrentRequests = -1\<close>, and with
  \<^verbatim>\<open>OLLAMA_MAX_QUEUE_SIZE=-1\<close> it has the length 0 of the queue above
  \<open>maxQueueSize = -1\<close>.
\<close>

theorem negative_limit_counterexample:
  "reachable negative_concurrency_env negative_concurrency_service \<and>
   currentRequests negative_concurrency_service = 0 \<and>
   length (executing negative_concurrency_service) = 0 \<and>
   maxConcurrentRequests negative_concurrency_service = - 1 \<and>
   \<not> currentRequests negative_concurrency_service
       \<le> maxConcurrentRequests negative_concurrency_service \<and>
   \<not> within_bounds negative_concurrency_service \<and>
   reachable negative_queue_env negative_queue_service \<and>
   length (requestQueue negative_queue_service) = 0 \<and>
   maxQueueSize negative_queue_service = - 1 \<and>
   \<not> int (length (requestQueue negative_queue_service)) \<le> maxQueueSize negative_queue_service \<and>
   \<not> within_bounds negative_queue_service"
proof -
  have r: "reachable negative_concurrency_env negative_concurrency_service"
    "reachable negative_queue_env negative_queue_service"
    unfolding negative_concurrency_service_def negative_queue_service_def
    by (rule reachable.start)+
  have v: "currentRequests negative_concurrency_service = 0"
    "length (executing negative_concurrency_service) = 0"
    "maxConcurrentRequests negative_concurrency_service = - 1"
    "length (requestQueue negative_queue_service) = 0"
    "maxQueueSize negative_queue_service = - 1"
    by (simp_all add: negative_concurrency_service_def negative_queue_service_def
        constructor_def negative_concurrency_env_def negative_queue_env_def parseInt_or_def)
  from r v show ?thesis by (simp add: within_bounds_def)
qed

text \<open>
  Claim C3, amended. In every state reached from the constructor's state by submissions,
  completions and drains, the two limits are the configured ones,
  \<open>currentRequests\<close> is the number of items whose work is executing, neither it nor the
  length of the queue is negative, and neither exceeds its limit or, under a negative
  limit, 0. For limits that are not negative (the defaults are 3 and 10),
  \<open>0 \<le> currentRequests \<le> maxConcurrentRequests\<close> and
  \<open>0 \<le> length requestQueue \<le> maxQueueSize\<close> hold, so the number of executing units of
  work never exceeds \<open>maxConcurrentRequests\<close>; the bounds then also hold between the
  decrement and the drain of a completion. Each step of a drain (rejecting an expired
  head, starting the head when a slot is free) keeps the bounds.
\<close>

theorem gateway_bounds:
  fixes s :: "'r OllamaService"
  assumes "reachable env s"
  shows "maxConcurrentRequests s = parseInt_or (OLLAMA_MAX_CONCURRENT env) 3 \<and>
         maxQueueSize s = parseInt_or (OLLAMA_MAX_QUEUE_SIZE env) 10 \<and>
         0 \<le> currentRequests s \<and> 0 \<le> int (length (requestQueue s)) \<and>
         int (length (executing s)) = currentRequests s \<and>
         currentRequests s \<le> max 0 (maxConcurrentRequests s) \<and>
         int (length (requestQueue s)) \<le> max 0 (maxQueueSize s) \<and>
         (0 \<le> maxConcurrentRequests s \<and> 0 \<le> maxQueueSize s \<longrightarrow>
            within_bounds s \<and>
            int (length (executing s)) \<le> maxConcurrentRequests s \<and>
            (\<forall>i \<in> set (executing s). \<forall>outcome.
               within_bounds (executeRequest_settle i outcome s))) \<and>
         (\<forall>t :: 'r OllamaService. within_bounds t \<and> requestQueue t \<noteq> [] \<longrightarrow>
            within_bounds (expire_head t) \<and>
            (currentRequests t < maxConcurrentRequests t \<longrightarrow> within_bounds (admit_head t)))"
proof -
  from assms have ok: "counters_ok s" by (simp add: reachable_invariants)
  from reachable_configuration[OF assms]
  have cfg: "maxConcurrentRequests s = parseInt_or (OLLAMA_MAX_CONCURRENT env) 3"
            "maxQueueSize s = parseInt_or (OLLAMA_MAX_QUEUE_SIZE env) 10"
    by (simp_all add: same_configuration_def constructor_def)
  have e: "int (length (executing s)) = currentRequests s"
    using ok by (simp add: counters_ok_def)
  have g: "0 \<le> currentRequests s" "currentRequests s \<le> max 0 (maxConcurrentRequests s)"
          "int (length (requestQueue s)) \<le> max 0 (maxQueueSize s)"
    using ok by (auto simp: counters_ok_def)
  have b: "within_bounds s"
    if "0 \<le> maxConcurrentRequests s" "0 \<le> maxQueueSize s"
    using g that by (simp add: within_bounds_def)
  have "within_bounds (executeRequest_settle i outcome s)"
    if "0 \<le> maxConcurrentRequests s" "0 \<le> maxQueueSize s" "i \<in> set (executing s)"
    for i outcome
  proof -
    from that(3) have "0 < length (executing s)" by (rule length_pos_if_in_set)
    then have "0 < int (length (executing s))" by (simp only: of_nat_0_less_iff)
    with e b[OF that(1,2)] show ?thesis
      by (auto simp: within_bounds_def executeRequest_settle_def)
  qed
  moreover have "within_bounds (expire_head t) \<and>
            (currentRequests t < maxConcurrentRequests t \<longrightarrow> within_bounds (admit_head t))"
    if "within_bounds t" "requestQueue t \<noteq> []" for t :: "'r OllamaService"
    using that
    by (cases "requestQueue t")
       (auto simp: within_bounds_def expire_head_def admit_head_def executeRequest_begin_def)
  ultimately show ?thesis using b e g cfg by (auto simp: within_bounds_def)
qed

theorem gateway_bounds_witness:
  "reachable default_env full_service \<and>
   maxConcurrentRequests full_service = 3 \<and> maxQueueSize full_service = 10 \<and>
   within_bounds full_service \<and> currentRequests full_service = 3 \<and>
   length (requestQueue full_service) = 10"
proof -
  have h: "0 \<le> maxConcurrentRequests full_service \<and> 0 \<le> maxQueueSize full_service"
    by (simp add: full_service_eq busy_service_eq constructor_def default_env_def parseInt_or_def)
  from gateway_bounds[OF reachable_full_service] h reachable_full_service show ?thesis
    by (simp add: full_service_eq busy_service_eq constructor_def default_env_def parseInt_or_def)
qed

text \<open>
  Claim C10. When \<^verbatim>\<open>queueRequest\<close> rejects a submission, the error is the queue-full
  error and the service is exactly as before: same counter, same queue, and no work
  function called.
\<close>

theorem queue_full_rejection_atomic:
  assumes "fst (queueRequest now s) = RejectedNow e"
  shows "snd (queueRequest now s) = s \<and> e = Error ''Request queue is full. Please try again later.'' \<and>
         currentRequests (snd (queueRequest now s)) = currentRequests s \<and>
         requestQueue (snd (queueRequest now s)) = requestQueue s \<and>
         invoked (snd (queueRequest now s)) = invoked s"
  using assms
  by (auto simp: queueRequest_def Let_def queue_full_error_def split: if_splits)

theorem queue_full_rejection_atomic_witness:
  "fst (queueRequest 7 full_service) = RejectedNow queue_full_error \<and>
   snd (queueRequest 7 full_service) = full_service"
proof -
  have h: "fst (queueRequest 7 full_service) = RejectedNow queue_full_error"
    by (simp add: full_service_eq busy_service_eq queueRequest_def constructor_def
        default_env_def parseInt_or_def Let_def)
  from queue_full_rejection_atomic[OF h] h show ?thesis by simp
qed

section \<open>The claim about settlement\<close>

text \<open>
  Claim C4, as stated, fails: with \<^verbatim>\<open>OLLAMA_MAX_CONCURRENT=-1\<close> the first submission to a
  fresh service is admitted to the queue, nothing is executing whose completion would
  drain the queue, and a drain leaves the state as it is, because no slot is free, also
  after more than 30 seconds. In no state that the service can reach has any work been
  called or any request been settled: the admitted request is never resolved.
\<close>

theorem starved_request_counterexample:
  "fst (queueRequest 0 negative_concurrency_service) = Queued 0 \<and>
   requestQueue starved_service = [\<lparr>item_id = 0, timestamp = 0\<rparr>] \<and>
   executing starved_service = [] \<and> settled starved_service = [] \<and>
   reachable negative_concurrency_env starved_service \<and>
   processQueue (\<lambda>k. 40000) starved_service = starved_service \<and>
   \<not> (\<exists>s :: string OllamaService.
         reachable negative_concurrency_env s \<and> \<not> (invoked s = [] \<and> settled s = []))"
proof -
  have a: "fst (queueRequest 0 negative_concurrency_service) = Queued 0"
    by (simp add: negative_concurrency_service_def queueRequest_def Let_def constructor_def
        negative_concurrency_env_def parseInt_or_def)
  have r: "reachable negative_concurrency_env starved_service"
    unfolding starved_service_def negative_concurrency_service_def
    by (rule reachable.submit) (rule reachable.start)
  have b: "requestQueue starved_service = [\<lparr>item_id = 0, timestamp = 0\<rparr>]"
    "executing starved_service = []" "settled starved_service = []"
    by (simp_all add: starved_service_eq constructor_def)
  have c: "processQueue (\<lambda>k. 40000) starved_service = starved_service"
    by (rule processQueue_no_slot)
       (simp add: starved_service_eq constructor_def negative_concurrency_env_def parseInt_or_def)
  have d: "\<not> (\<exists>s :: string OllamaService.
         reachable negative_concurrency_env s \<and> \<not> (invoked s = [] \<and> settled s = []))"
    using negative_concurrency_idle by blast
  from a b r c d show ?thesis by blast
qed

text \<open>
  Claim C4, amended. Every request that \<^verbatim>\<open>queueRequest\<close> started or queued is settled at
  most once, and with at least one slot configured exactly once and never dropped. In
  every reachable state no item has been settled twice (resolving and rejecting both
  count), no work function has been called twice, an item rejected by the queue timeout
  has never had its work called, and every item created so far is exactly one of
  queued, executing or settled. The outcome with which the work of an executing item
  returns is the outcome the item is settled with, and each such completion makes the
  number of waiting items smaller. With at least one slot configured
  (\<open>0 < maxConcurrentRequests\<close>), items wait in the queue only while some work is
  executing, and once the work of the executing items has returned, in whatever order
  (at most as many completions as items are waiting), the queue and the slots are empty
  and every item created is settled exactly once, with the outcome of its work or with
  the queue timeout error.
\<close>

theorem resolved_exactly_once:
  assumes "reachable env s"
  shows "distinct (map fst (settled s)) \<and>
         distinct (invoked s) \<and>
         set (timedOut s) \<inter> set (invoked s) = {} \<and>
         distinct (map item_id (requestQueue s) @ executing s @ map fst (settled s)) \<and>
         set (map item_id (requestQueue s)) \<union> set (executing s) \<union> set (map fst (settled s))
           = {..<nextItem s} \<and>
         set (invoked s) = set (executing s) \<union> (set (map fst (settled s)) - set (timedOut s)) \<and>
         (\<forall>i \<in> set (executing s). \<forall>outcome clock.
            pending (executeRequest_end i outcome clock s) < pending s \<and>
            (i, outcome) \<in> set (settled (executeRequest_end i outcome clock s))) \<and>
         (0 < maxConcurrentRequests s \<longrightarrow>
            (executing s = [] \<longrightarrow> requestQueue s = []) \<and>
            (\<forall>pick work clock.
               let s' = complete_all (pending s) pick work clock s
               in reachable env s' \<and> requestQueue s' = [] \<and> executing s' = [] \<and>
                  nextItem s' = nextItem s \<and>
                  distinct (map fst (settled s')) \<and>
                  set (map fst (settled s')) = {..<nextItem s} \<and>
                  set (settled s') \<subseteq> set (settled s) \<union> outcome_of work))"
proof -
  from assms have inv: "ids_distinct s" "invoked_ok s"
    by (simp_all add: reachable_invariants)
  have a: "distinct (map fst (settled s))" "distinct (invoked s)"
    "distinct (map item_id (requestQueue s) @ executing s @ map fst (settled s))"
    "set (map item_id (requestQueue s)) \<union> set (executing s) \<union> set (map fst (settled s))
           = {..<nextItem s}"
    "set (invoked s) = set (executing s) \<union> (set (map fst (settled s)) - set (timedOut s))"
    using inv by (simp_all add: ids_distinct_def invoked_ok_def)
  have b: "set (timedOut s) \<inter> set (invoked s) = {}"
    using inv by (auto simp: ids_distinct_def invoked_ok_def)
  have c: "pending (executeRequest_end i outcome clock s) < pending s \<and>
           (i, outcome) \<in> set (settled (executeRequest_end i outcome clock s))"
    if "i \<in> set (executing s)" for i outcome clock
    using pending_end[OF that] settled_end_mem by blast
  have d: "let s' = complete_all (pending s) pick work clock s
           in reachable env s' \<and> requestQueue s' = [] \<and> executing s' = [] \<and>
              nextItem s' = nextItem s \<and>
              distinct (map fst (settled s')) \<and>
              set (map fst (settled s')) = {..<nextItem s} \<and>
              set (settled s') \<subseteq> set (settled s) \<union> outcome_of work"
    if pos: "0 < maxConcurrentRequests s" for pick work clock
  proof -
    have pos0: "0 < maxConcurrentRequests (constructor env :: 'a OllamaService)"
      using reachable_configuration[OF assms] pos by (simp add: same_configuration_def)
    have q: "reachable env (complete_all (pending s) pick work clock s) \<and>
         requestQueue (complete_all (pending s) pick work clock s) = [] \<and>
         executing (complete_all (pending s) pick work clock s) = [] \<and>
         nextItem (complete_all (pending s) pick work clock s) = nextItem s \<and>
         set (settled (complete_all (pending s) pick work clock s)) \<subseteq> set (settled s) \<union> outcome_of work"
      by (rule complete_all_quiescent[OF pos0 assms]) simp_all
    from q have "reachable env (complete_all (pending s) pick work clock s)" by (rule conjunct1)
    then have "ids_distinct (complete_all (pending s) pick work clock s)"
      by (simp add: reachable_invariants)
    with q show ?thesis by (simp add: ids_distinct_def Let_def)
  qed
  have e: "0 < maxConcurrentRequests s \<Longrightarrow> executing s = [] \<Longrightarrow> requestQueue s = []"
    using assms by (rule idle_queue_empty)
  from a b c d e show ?thesis by blast
qed

theorem resolved_exactly_once_witness:
  "reachable default_env backlog_service \<and> 0 < maxConcurrentRequests backlog_service \<and>
   pending backlog_service = 6 \<and>
   (let s' = complete_all 6 (\<lambda>n. 1) (\<lambda>i. Inr ''a cat'') (\<lambda>n k. 31500) backlog_service
    in requestQueue s' = [] \<and> executing s' = [] \<and>
       distinct (map fst (settled s')) \<and> set (map fst (settled s')) = {..<6} \<and>
       settled s' =
         [(1, Inr ''a cat''), (3, Inl queue_timeout_error), (4, Inl queue_timeout_error),
          (2, Inr ''a cat''), (5, Inr ''a cat''), (0, Inr ''a cat'')])"
proof -
  have p: "pending backlog_service = 6" "0 < maxConcurrentRequests backlog_service"
    by (simp_all add: pending_def backlog_service_fields)
  note T = resolved_exactly_once[OF reachable_backlog_service,
      THEN conjunct2, THEN conjunct2, THEN conjunct2, THEN conjunct2, THEN conjunct2,
      THEN conjunct2, THEN conjunct2, rule_format, OF p(2), THEN conjunct2, rule_format,
      of "\<lambda>n. 1" "\<lambda>i. Inr ''a cat''" "\<lambda>n k. 31500"]
  show ?thesis
    using T reachable_backlog_service p complete_all_example
    by (simp add: Let_def backlog_service_fields)
qed

section \<open>The claims about the status report, the probes and the classifier\<close>

text \<open>
  Claim C5. \<^verbatim>\<open>getStatus\<close> never throws, whatever the two probes do: it returns a report
  with \<open>currentRequests\<close> and the length of the queue. With the probes of the source it
  reports the utilization \<^verbatim>\<open>Math.round((currentRequests / maxConcurrentRequests) * 100)\<close>
  followed by a percent sign, and in every reachable state with no request running that
  number is 0 and the text is \<^verbatim>\<open>0%\<close>.
\<close>

theorem getStatus_never_throws:
  "(\<exists>st. getStatus_body s probe1 probe2 = Inr st \<and>
         queue_currentRequests st = currentRequests s \<and>
         queue_queuedRequests st = length (requestQueue s)) \<and>
   (\<exists>st. getStatus s tags1 tags2 = Inr st \<and>
         queue_currentRequests st = currentRequests s \<and>
         queue_queuedRequests st = length (requestQueue s) \<and>
         queue_queueUtilization st =
           Some (queueUtilization (currentRequests s) (maxConcurrentRequests s)) \<and>
         (maxConcurrentRequests s \<noteq> 0 \<longrightarrow>
            queueUtilization (currentRequests s) (maxConcurrentRequests s) =
              Number_toString (Math_round (binary64 (binary64
                (of_int (currentRequests s) / of_int (maxConcurrentRequests s)) * 100))) @ ''%'') \<and>
         (reachable env s \<and> currentRequests s = 0 \<longrightarrow>
            Math_round (binary64 (binary64
                (of_int (currentRequests s) / of_int (maxConcurrentRequests s)) * 100)) = 0 \<and>
            queue_queueUtilization st = Some ''0%''))"
proof -
  have a: "\<exists>st. getStatus_body s probe1 probe2 = Inr st \<and>
         queue_currentRequests st = currentRequests s \<and>
         queue_queuedRequests st = length (requestQueue s)"
    by (cases probe1; cases probe2) (simp_all add: getStatus_body_def)
  obtain b1 b2 where p: "isAvailable tags1 = Inr b1" "isModelAvailable (model s) tags2 = Inr b2"
    using isAvailable_total isModelAvailable_total by metis
  have idle: "queueUtilization (currentRequests s) (maxConcurrentRequests s) = ''0%''"
    if "reachable env s" "currentRequests s = 0"
    using that reachable_maxConcurrent_nonzero[of env s] by (simp add: queueUtilization_idle)
  have zero: "Math_round (binary64 (binary64
                (of_int (currentRequests s) / of_int (maxConcurrentRequests s)) * 100)) = 0"
    if "currentRequests s = 0"
    using that by (simp add: binary64_zero Math_round_zero)
  have b: "getStatus s tags1 tags2 =
     Inr \<lparr>service_available = b1, service_url = baseURL s, service_error = None,
          model_name = model s, model_available = b2,
          configuration = Some \<lparr>cfg_timeout = timeout s, cfg_baseURL = baseURL s,
                               cfg_maxConcurrentRequests = maxConcurrentRequests s,
                               cfg_maxQueueSize = maxQueueSize s\<rparr>,
          queue_currentRequests = currentRequests s,
          queue_queuedRequests = length (requestQueue s),
          queue_queueUtilization =
            Some (queueUtilization (currentRequests s) (maxConcurrentRequests s))\<rparr>"
    by (simp add: getStatus_def getStatus_body_def p)
  have c: "maxConcurrentRequests s \<noteq> 0 \<longrightarrow>
            queueUtilization (currentRequests s) (maxConcurrentRequests s) =
              Number_toString (Math_round (binary64 (binary64
                (of_int (currentRequests s) / of_int (maxConcurrentRequests s)) * 100))) @ ''%''"
    by (simp add: queueUtilization_def)
  show ?thesis
    unfolding b using a c idle zero by simp
qed

theorem getStatus_never_throws_witness:
  "reachable default_env default_service \<and> currentRequests default_service = 0 \<and>
   (\<exists>st. getStatus default_service (Inl (Error ''connect ECONNREFUSED 127.0.0.1:11434''))
            (Inl (Error ''connect ECONNREFUSED 127.0.0.1:11434'')) = Inr st \<and>
         service_available st = False \<and> queue_currentRequests st = 0 \<and>
         queue_queuedRequests st = 0 \<and> queue_queueUtilization st = Some ''0%'') \<and>
   (\<exists>st. getStatus busy_service tags_ok tags_ok = Inr st \<and>
         service_available st = True \<and> model_available st = True \<and>
         queue_currentRequests st = 3 \<and> queue_queueUtilization st = Some ''100%'')"
proof -
  have r: "reachable default_env default_service"
    unfolding default_service_def by (rule reachable.start)
  have c: "currentRequests default_service = 0" "requestQueue default_service = []"
    by (simp_all add: default_service_def constructor_def)
  have a: "service_available st = False"
    if "getStatus default_service (Inl (Error ''connect ECONNREFUSED 127.0.0.1:11434''))
            (Inl (Error ''connect ECONNREFUSED 127.0.0.1:11434'')) = Inr st" for st
    using that
    by (auto simp: getStatus_def getStatus_body_def isAvailable_def isAvailable_try_def
        isModelAvailable_def isModelAvailable_try_def)
  have m: "isModelAvailable (model busy_service) tags_ok = Inr True"
    by (simp add: busy_service_eq constructor_def default_env_def string_or_def tags_ok_def
        isModelAvailable_def isModelAvailable_try_def)
  have b: "\<exists>st. getStatus busy_service tags_ok tags_ok = Inr st \<and>
         service_available st = True \<and> model_available st = True \<and>
         queue_currentRequests st = 3 \<and> queue_queueUtilization st = Some ''100%''"
    by (simp add: getStatus_def getStatus_body_def tags_ok_available m)
       (simp add: busy_service_eq constructor_def default_env_def parseInt_or_def
          queueUtilization_examples)
  from getStatus_never_throws[of default_service _ _
      "Inl (Error ''connect ECONNREFUSED 127.0.0.1:11434'')"
      "Inl (Error ''connect ECONNREFUSED 127.0.0.1:11434'')" default_env, THEN conjunct2]
  have "\<exists>st. getStatus default_service (Inl (Error ''connect ECONNREFUSED 127.0.0.1:11434''))
            (Inl (Error ''connect ECONNREFUSED 127.0.0.1:11434'')) = Inr st \<and>
         service_available st = False \<and> queue_currentRequests st = 0 \<and>
         queue_queuedRequests st = 0 \<and> queue_queueUtilization st = Some ''0%''"
    using r c a by auto
  with r c b show ?thesis by blast
qed

text \<open>
  Claim C6. \<^verbatim>\<open>isAvailable\<close> and \<^verbatim>\<open>isModelAvailable\<close> always return a boolean and never
  throw; a rejected probe gives \<^verbatim>\<open>false\<close>. \<^verbatim>\<open>isAvailable\<close> returns \<^verbatim>\<open>true\<close> exactly
  when the probe resolves with status 200; \<^verbatim>\<open>isModelAvailable\<close> returns \<^verbatim>\<open>true\<close> exactly
  when the probe resolves with status 200, the body carries a list of models, and the
  name of some listed model contains the configured model name as a substring.
\<close>

theorem probes_never_throw:
  "(\<exists>b. isAvailable get = Inr b) \<and>
   (isAvailable get = Inr True \<longleftrightarrow> (\<exists>resp. get = Inr resp \<and> status resp = 200)) \<and>
   isAvailable (Inl error) = Inr False \<and>
   (\<exists>b. isModelAvailable this_model tags = Inr b) \<and>
   (isModelAvailable this_model tags = Inr True \<longleftrightarrow>
      (\<exists>resp d ms. tags = Inr resp \<and> status resp = 200 \<and> data resp = Object d \<and>
         models d = Some ms \<and> (\<exists>m \<in> set ms. sublist this_model (name m)))) \<and>
   isModelAvailable this_model (Inl error) = Inr False"
proof -
  have a: "isAvailable get = Inr True \<longleftrightarrow> (\<exists>resp. get = Inr resp \<and> status resp = 200)"
    by (cases get) (auto simp: isAvailable_def isAvailable_try_def)
  have b: "isModelAvailable this_model tags = Inr True \<longleftrightarrow>
      (\<exists>resp d ms. tags = Inr resp \<and> status resp = 200 \<and> data resp = Object d \<and>
         models d = Some ms \<and> (\<exists>m \<in> set ms. sublist this_model (name m)))"
    by (cases tags)
       (auto simp: isModelAvailable_def isModelAvailable_try_def String_includes_sublist
          list_ex_iff split: body.splits option.splits)
  show ?thesis
    using a b isAvailable_total[of get] isModelAvailable_total[of this_model tags]
    by (simp add: isAvailable_def isAvailable_try_def isModelAvailable_def isModelAvailable_try_def)
qed

theorem probes_never_throw_witness:
  "isModelAvailable ''moondream''
     (Inr \<lparr>status = 200,
           data = Object \<lparr>models = Some [\<lparr>name = ''llama2:7b''\<rparr>, \<lparr>name = ''moondream:latest''\<rparr>]\<rparr>\<rparr>)
     = Inr True \<and>
   isModelAvailable ''moondream''
     (Inr \<lparr>status = 200,
           data = Object \<lparr>models = Some [\<lparr>name = ''llama2:7b''\<rparr>, \<lparr>name = ''codellama:13b''\<rparr>]\<rparr>\<rparr>)
     = Inr False \<and>
   isAvailable (Inr \<lparr>status = 204, data = Nullish\<rparr> :: js_error + tags_data http_response)
     = Inr False"
proof -
  let ?e = "Error ''connect ECONNREFUSED 127.0.0.1:11434''"
  let ?none = "Inr \<lparr>status = 204, data = Nullish\<rparr> :: js_error + tags_data http_response"
  let ?with = "Inr \<lparr>status = 200,
           data = Object \<lparr>models = Some [\<lparr>name = ''llama2:7b''\<rparr>, \<lparr>name = ''moondream:latest''\<rparr>]\<rparr>\<rparr>"
  let ?without = "Inr \<lparr>status = 200,
           data = Object \<lparr>models = Some [\<lparr>name = ''llama2:7b''\<rparr>, \<lparr>name = ''codellama:13b''\<rparr>]\<rparr>\<rparr>"
  note T1 = probes_never_throw[of ?none ?e "''moondream''" ?with]
  note T2 = probes_never_throw[of ?none ?e "''moondream''" ?without]
  have s1: "sublist ''moondream'' ''moondream:latest''"
    by (simp add: String_includes_sublist[symmetric])
  have s2: "\<not> sublist ''moondream'' ''llama2:7b''" "\<not> sublist ''moondream'' ''codellama:13b''"
    by (simp_all add: String_includes_sublist[symmetric])
  have "\<exists>resp d ms. ?with = Inr resp \<and> status resp = 200 \<and> data resp = Object d \<and>
         models d = Some ms \<and> (\<exists>m \<in> set ms. sublist ''moondream'' (name m))"
    using s1 by simp
  with T1[THEN conjunct2, THEN conjunct2, THEN conjunct2, THEN conjunct2, THEN conjunct1]
  have a: "isModelAvailable ''moondream'' ?with = Inr True" by blast
  have "\<not> (\<exists>resp d ms. ?without = Inr resp \<and> status resp = 200 \<and> data resp = Object d \<and>
         models d = Some ms \<and> (\<exists>m \<in> set ms. sublist ''moondream'' (name m)))"
    using s2 by auto
  with T2[THEN conjunct2, THEN conjunct2, THEN conjunct2, THEN conjunct2, THEN conjunct1]
  have "isModelAvailable ''moondream'' ?without \<noteq> Inr True" by blast
  with T2[THEN conjunct2, THEN conjunct2, THEN conjunct2, THEN conjunct1]
  have b: "isModelAvailable ''moondream'' ?without = Inr False" by auto
  have "\<not> (\<exists>resp. ?none = Inr resp \<and> status resp = 200)" by simp
  with T1[THEN conjunct2, THEN conjunct1] have "isAvailable ?none \<noteq> Inr True" by blast
  with T1[THEN conjunct1] have c: "isAvailable ?none = Inr False" by auto
  from a b c show ?thesis by blast
qed



text \<open>
  Claim C8, as stated, fails: a timeout of the HTTP client has the code
  \<^verbatim>\<open>ECONNABORTED\<close>, which \<^verbatim>\<open>handleNetworkError\<close> does not know, so the caller receives
  the raw text of the transport error behind \<^verbatim>\<open>Ollama service error: \<close>, which is
  none of the six fixed messages.
\<close>

theorem raw_transport_text_counterexample:
  "classifyImage_work default_service None ''What is it?'' tags_ok tags_ok
     (Inl \<lparr>message = ''timeout of 60000ms exceeded'', code = Some ''ECONNABORTED'',
           response = None\<rparr>) 5 =
     Inl (Error ''Ollama service error: timeout of 60000ms exceeded'') \<and>
   ''Ollama service error: timeout of 60000ms exceeded'' \<notin> set transport_messages"
  by (simp add: classifyImage_work_def classifyImage_try_post[OF tags_ok_available tags_ok_model]
        handleNetworkError_def has_status_def transport_messages_def message_defs)

text \<open>
  Claim C8, amended. When the pre-flight probes pass and the \<^verbatim>\<open>POST\<close> fails, the caller's
  promise is rejected with what \<^verbatim>\<open>handleNetworkError\<close> throws, an error without code
  and response. Its
  message is the fixed timed-out, connect-refused, DNS-not-found or network-unreachable
  message for the codes \<^verbatim>\<open>ETIMEDOUT\<close>/\<^verbatim>\<open>TIMEOUT\<close>, \<^verbatim>\<open>ECONNREFUSED\<close>, \<^verbatim>\<open>ENOTFOUND\<close>,
  \<^verbatim>\<open>ENETUNREACH\<close>; otherwise the fixed endpoint-not-found or server-error message for a
  response status 404 or at least 500; in all these cases one of the six fixed messages,
  with no text of the transport error. Otherwise, for a response status 400 it is
  \<^verbatim>\<open>Ollama API error: \<close> followed by the JSON text of the response body, and for any
  other failure \<^verbatim>\<open>Ollama service error: \<close> followed by the message of the transport
  error.
\<close>

theorem transport_error_messages:
  assumes "isAvailable tags1 = Inr True" "isModelAvailable (model s) tags2 = Inr True"
  shows "classifyImage_work s debug prompt tags1 tags2 (Inl error) elapsed =
           Inl (handleNetworkError error) \<and>
         (i, Inl (handleNetworkError error)) \<in>
           set (settled (classifyImage_returns i debug prompt tags1 tags2 (Inl error) elapsed clock s)) \<and>
         code (handleNetworkError error) = None \<and> response (handleNetworkError error) = None \<and>
         (code error = Some ''ETIMEDOUT'' \<or> code error = Some ''TIMEOUT'' \<longrightarrow>
            message (handleNetworkError error) = timed_out_message) \<and>
         (code error = Some ''ECONNREFUSED'' \<longrightarrow>
            message (handleNetworkError error) = connect_refused_message) \<and>
         (code error = Some ''ENOTFOUND'' \<longrightarrow>
            message (handleNetworkError error) = dns_not_found_message) \<and>
         (code error = Some ''ENETUNREACH'' \<longrightarrow>
            message (handleNetworkError error) = network_unreachable_message) \<and>
         (\<not> known_code error \<and> has_status error (\<lambda>st. st = 404) \<longrightarrow>
            message (handleNetworkError error) = endpoint_not_found_message) \<and>
         (\<not> known_code error \<and> has_status error (\<lambda>st. st \<ge> 500) \<longrightarrow>
            message (handleNetworkError error) = server_error_message) \<and>
         (known_code error \<or> has_status error (\<lambda>st. st = 404 \<or> st \<ge> 500) \<longrightarrow>
            message (handleNetworkError error) \<in> set transport_messages) \<and>
         (\<not> known_code error \<and> has_status error (\<lambda>st. st = 400) \<longrightarrow>
            message (handleNetworkError error) =
              ''Ollama API error: '' @ err_data_json (the (response error))) \<and>
         (\<not> known_code error \<and> \<not> has_status error (\<lambda>st. st = 404 \<or> st = 400 \<or> st \<ge> 500) \<longrightarrow>
            message (handleNetworkError error) = ''Ollama service error: '' @ message error)"
proof -
  have w: "classifyImage_work s debug prompt tags1 tags2 (Inl error) elapsed =
           Inl (handleNetworkError error)"
    by (simp add: classifyImage_work_def classifyImage_try_post[OF assms])
  have h: "code (handleNetworkError error) = None \<and> response (handleNetworkError error) = None"
    by (simp add: handleNetworkError_def Error_def)
  have d: "(i, Inl (handleNetworkError error)) \<in>
           set (settled (classifyImage_returns i debug prompt tags1 tags2 (Inl error) elapsed clock s))"
    unfolding classifyImage_returns_def w by (rule settled_end_mem)
  show ?thesis
    unfolding w
    apply (intro conjI h[THEN conjunct1] h[THEN conjunct2] refl d)
    apply (auto simp: handleNetworkError_def Error_def known_code_def has_status_def
        transport_messages_def message_defs split: option.splits)
    done
qed

theorem transport_error_messages_witness:
  "classifyImage_work default_service None ''What is it?'' tags_ok tags_ok
     (Inl \<lparr>message = ''connect ECONNREFUSED 127.0.0.1:11434'', code = Some ''ECONNREFUSED'',
           response = None\<rparr>) 5 =
   Inl (Error ''Cannot connect to Ollama service. Please ensure Ollama is running and accessible at the configured URL.'') \<and>
   classifyImage_work default_service None ''What is it?'' tags_ok tags_ok
     (Inl \<lparr>message = ''Request failed with status code 503'', code = Some ''ERR_BAD_RESPONSE'',
           response = Some \<lparr>err_status = 503, err_data_json = ''{}''\<rparr>\<rparr>) 5 =
   Inl (Error ''Ollama service is experiencing internal issues. Please try again later.'')"
proof -
  let ?refused = "\<lparr>message = ''connect ECONNREFUSED 127.0.0.1:11434'', code = Some ''ECONNREFUSED'',
           response = None\<rparr>"
  let ?busy = "\<lparr>message = ''Request failed with status code 503'', code = Some ''ERR_BAD_RESPONSE'',
           response = Some \<lparr>err_status = 503, err_data_json = ''{}''\<rparr>\<rparr>"
  note T = transport_error_messages[OF tags_ok_available tags_ok_model,
      where debug = None and prompt = "''What is it?''" and elapsed = 5]
  have k: "code ?refused = Some ''ECONNREFUSED''" "\<not> known_code ?busy"
    "has_status ?busy (\<lambda>st. st \<ge> 500)"
    by (simp_all add: known_code_def has_status_def)
  have a: "handleNetworkError ?refused = Error connect_refused_message"
    using T[where error = ?refused] k by (simp add: Error_def)
  have b: "handleNetworkError ?busy = Error server_error_message"
    using T[where error = ?busy] k by (simp add: Error_def)
  show ?thesis
    using T[where error = ?refused, THEN conjunct1] T[where error = ?busy, THEN conjunct1]
    unfolding a b by (simp add: message_defs)
qed

text \<open>
  Claim C9, as stated, fails: for a response that includes \<^verbatim>\<open>total_duration: 0\<close> the
  result reports the locally measured time (here 1234 ms), not
  \<^verbatim>\<open>Math.round(0 / 1000000) = 0\<close>, because the code tests the truthiness of the value.
\<close>

theorem processingTime_zero_duration_counterexample:
  "classifyImage_work default_service None ''What is it?'' tags_ok tags_ok
     (Inr \<lparr>status = 200,
           data = Object \<lparr>response_field = Present ''a cat'', total_duration = Some 0,
                          hasOwnProperty_key = False,
                          json_text = ''{''@ [CHR 0x22] @ ''response'' @ [CHR 0x22] @ '':'' @
                            [CHR 0x22] @ ''a cat'' @ [CHR 0x22] @ '','' @ [CHR 0x22] @
                            ''total_duration'' @ [CHR 0x22] @ '':0}''\<rparr>\<rparr>) 1234 =
     Inr \<lparr>success = True, classification = ''a cat'', result_model = ''moondream'',
          result_prompt = ''What is it?'', processingTime = 1234\<rparr> \<and>
   Math_round (binary64 (binary64 (of_int 0) / 1000000)) = 0"
  by (simp add: classifyImage_work_def classifyImage_try_post[OF tags_ok_available tags_ok_model]
        logResponseDebug_def classifyImage_response_def falsy_def response_property_def
        hasOwnProperty_response_def total_duration_property_def String_trim_examples
        default_service_model binary64_zero Math_round_zero)

text \<open>
  Claim C9, amended. For every successful classification result, \<open>processingTime\<close> is
  \<^verbatim>\<open>Math.round(total_duration / 1000000)\<close> whenever the response includes a
  \<^verbatim>\<open>total_duration\<close> other than 0, and the locally measured elapsed time when the
  response omits \<^verbatim>\<open>total_duration\<close> or reports it as 0. A result is only produced when
  the \<^verbatim>\<open>POST\<close> resolves.
\<close>

theorem processingTime_source:
  assumes "classifyImage_work s debug prompt tags1 tags2 (Inr resp) elapsed = Inr r"
  shows "(\<forall>d. total_duration_property (data resp) = Some d \<and> d \<noteq> 0 \<longrightarrow>
            processingTime r = Math_round (binary64 (binary64 (of_int d) / 1000000))) \<and>
         (total_duration_property (data resp) = None \<or>
          total_duration_property (data resp) = Some 0 \<longrightarrow> processingTime r = elapsed) \<and>
         (\<forall>error. classifyImage_work s debug prompt tags1 tags2 (Inl error) elapsed \<noteq> Inr r)"
  using assms
  by (auto simp: classifyImage_work_def classifyImage_try_def classifyImage_response_def
      split: sum.splits if_splits field.splits option.splits)

theorem processingTime_source_witness:
  "classifyImage_work default_service None ''What is it?'' tags_ok tags_ok
     (Inr (generated '' a cat '' 1500000000)) 1623 =
   Inr \<lparr>success = True, classification = ''a cat'', result_model = ''moondream'',
        result_prompt = ''What is it?'', processingTime = 1500\<rparr>"
proof -
  let ?r = "\<lparr>success = True, classification = ''a cat'', result_model = ''moondream'',
        result_prompt = ''What is it?'',
        processingTime = Math_round (binary64 (binary64 (of_int 1500000000) / 1000000))\<rparr>"
  have h: "classifyImage_work default_service None ''What is it?'' tags_ok tags_ok
     (Inr (generated '' a cat '' 1500000000)) 1623 = Inr ?r"
    by (simp add: classifyImage_work_def
        classifyImage_try_post[OF tags_ok_available tags_ok_model]
        logResponseDebug_def classifyImage_response_def falsy_def response_property_def
        hasOwnProperty_response_def total_duration_property_def String_trim_examples
        default_service_model generated_def)
  have d: "total_duration_property (data (generated '' a cat '' 1500000000)) = Some 1500000000"
    by (simp add: generated_def total_duration_property_def)
  from processingTime_source[OF h, THEN conjunct1] d
  have "processingTime ?r = Math_round (binary64 (binary64 (of_int 1500000000) / 1000000))"
    by simp
  with h show ?thesis by (simp add: Math_round_example)
qed

end
